theory Spec2Isabelle
  imports Complex_Main "HOL-Library.AList" "HOL-Library.Word" "HOL-Library.Multiset"
begin

section \<open>Expressions, sorts and recognizers\<close>

text \<open>
  Modelled from the spec: the expression DAG and its sort system (ast/ast.h and
  ast/arith_decl_plugin.h are not among the sources). Section 3 of the specification
  lists the discriminators; each one is a constructor here. An n-ary application keeps
  its argument list, so that the binary matchers of the source (\<open>is_mul(t, t1, t2)\<close>)
  only fire on two arguments. \<open>EApp\<close> stands for every other application
  (uninterpreted functions, non-linear operators the plugin does not look into).
\<close>

datatype sort = BoolS | IntS | RealS | OtherS

datatype expr =
    UConst string sort
  | Numeral rat bool
  | ETrue
  | EFalse
  | ENot expr
  | EAnd "expr list"
  | EOr "expr list"
  | EEq expr expr
  | EDistinct "expr list"
  | EIte expr expr expr
  | ELe expr expr
  | ELt expr expr
  | EGe expr expr
  | EGt expr expr
  | EAdd "expr list"
  | ESub expr expr
  | EUminus expr
  | EMul "expr list"
  | EMod expr expr
  | EIdiv expr expr
  | EDiv expr expr
  | EApp string sort "expr list"

fun sort_of :: "expr \<Rightarrow> sort" where
  "sort_of (UConst n s) = s"
| "sort_of (Numeral r i) = (if i then IntS else RealS)"
| "sort_of ETrue = BoolS"
| "sort_of EFalse = BoolS"
| "sort_of (ENot e) = BoolS"
| "sort_of (EAnd es) = BoolS"
| "sort_of (EOr es) = BoolS"
| "sort_of (EEq a b) = BoolS"
| "sort_of (EDistinct es) = BoolS"
| "sort_of (EIte g a b) = sort_of a"
| "sort_of (ELe a b) = BoolS"
| "sort_of (ELt a b) = BoolS"
| "sort_of (EGe a b) = BoolS"
| "sort_of (EGt a b) = BoolS"
| "sort_of (EAdd es) = (if list_ex (\<lambda>e. sort_of e = RealS) es then RealS else IntS)"
| "sort_of (ESub a b) = (if sort_of a = RealS \<or> sort_of b = RealS then RealS else IntS)"
| "sort_of (EUminus a) = sort_of a"
| "sort_of (EMul es) = (if list_ex (\<lambda>e. sort_of e = RealS) es then RealS else IntS)"
| "sort_of (EMod a b) = IntS"
| "sort_of (EIdiv a b) = IntS"
| "sort_of (EDiv a b) = RealS"
| "sort_of (EApp f s es) = s"

definition is_int :: "expr \<Rightarrow> bool" where
  "is_int e = (sort_of e = IntS)"

text \<open>\<open>is_arith\<close> of the source: \<open>a.is_int_real(e)\<close>.\<close>

definition is_arith :: "expr \<Rightarrow> bool" where
  "is_arith e = (sort_of e = IntS \<or> sort_of e = RealS)"

text \<open>\<open>a.is_numeral(t, r)\<close>: the numeral's value when \<open>t\<close> is one.\<close>

definition is_numeral :: "expr \<Rightarrow> rat option" where
  "is_numeral t = (case t of Numeral r i \<Rightarrow> Some r | _ \<Rightarrow> None)"

text \<open>
  Modelled from the spec: \<open>a.is_extended_numeral\<close>, which \<open>imp::is_numeral\<close> of the
  source forwards to, is not among the sources; the dispatch table of section 4.2 says
  "k numeral", so it recognizes numerals.
\<close>

definition is_extended_numeral :: "expr \<Rightarrow> rat option" where
  "is_extended_numeral t = is_numeral t"

definition is_uninterp_const :: "expr \<Rightarrow> bool" where
  "is_uninterp_const e = (case e of UConst n s \<Rightarrow> True | _ \<Rightarrow> False)"

text \<open>
  \<open>mk_not\<close> of ast/ast_util: it strips a negation and folds the truth constants
  instead of stacking a second \<open>not\<close>.
\<close>

definition mk_not :: "expr \<Rightarrow> expr" where
  "mk_not e = (case e of ENot a \<Rightarrow> a | ETrue \<Rightarrow> EFalse | EFalse \<Rightarrow> ETrue | _ \<Rightarrow> ENot e)"

section \<open>The optimization kernel as the plugin sees it\<close>

text \<open>
  Modelled from the spec: the MBO kernel (math/simplex/model_based_opt is not among the
  sources). Section 6.2 gives its contract. The model records what the plugin submits:
  the value and integrality of every variable, in the order of their dense ids, and
  every row in the order of submission. A mod or div row defines a fresh variable whose
  value is the row's linear form taken mod or div the modulus (section 3).
  Projection, the live rows after it and maximization are the kernel's own business and
  are parameters of the functions that call them.
\<close>

datatype ineq_type = t_eq | t_lt | t_le | t_divides | t_mod | t_div

record var =
  m_id :: nat
  m_coeff :: rat

text \<open>
  A row: \<open>r_vars\<close>, \<open>r_coeff\<close>, \<open>r_mod\<close>, \<open>r_type\<close> and \<open>r_id\<close> are the fields
  \<open>m_vars\<close>, \<open>m_coeff\<close>, \<open>m_mod\<close>, \<open>m_type\<close> and \<open>m_id\<close> of the kernel's row.
\<close>

record row =
  r_vars :: "var list"
  r_coeff :: rat
  r_mod :: rat
  r_type :: ineq_type
  r_id :: nat

record mbo =
  m_var2value :: "rat list"
  m_var2is_int :: "bool list"
  m_rows :: "row list"
  m_objective :: "(var list \<times> rat) option"

definition mbo_empty :: mbo where
  "mbo_empty = \<lparr>m_var2value = [], m_var2is_int = [], m_rows = [], m_objective = None\<rparr>"

definition rat_mod :: "rat \<Rightarrow> rat \<Rightarrow> rat" where
  "rat_mod r m = r - \<bar>m\<bar> * of_int \<lfloor>r / \<bar>m\<bar>\<rfloor>"

definition rat_div :: "rat \<Rightarrow> rat \<Rightarrow> rat" where
  "rat_div r m = sgn m * of_int \<lfloor>r / \<bar>m\<bar>\<rfloor>"

definition var_value :: "mbo \<Rightarrow> nat \<Rightarrow> rat" where
  "var_value k i = (if i < length (m_var2value k) then m_var2value k ! i else 0)"

definition row_value :: "mbo \<Rightarrow> var list \<Rightarrow> rat \<Rightarrow> rat" where
  "row_value k coeffs c = c + sum_list (map (\<lambda>v. m_coeff v * var_value k (m_id v)) coeffs)"

definition add_var :: "rat \<Rightarrow> bool \<Rightarrow> mbo \<Rightarrow> nat \<times> mbo" where
  "add_var r i k =
     (length (m_var2value k),
      k\<lparr>m_var2value := m_var2value k @ [r], m_var2is_int := m_var2is_int k @ [i]\<rparr>)"

definition add_row :: "var list \<Rightarrow> rat \<Rightarrow> rat \<Rightarrow> ineq_type \<Rightarrow> nat \<Rightarrow> mbo \<Rightarrow> mbo" where
  "add_row coeffs c m ty i k =
     k\<lparr>m_rows := m_rows k @
        [\<lparr>r_vars = coeffs, r_coeff = c, r_mod = m, r_type = ty, r_id = i\<rparr>]\<rparr>"

definition add_constraint :: "var list \<Rightarrow> rat \<Rightarrow> ineq_type \<Rightarrow> mbo \<Rightarrow> mbo" where
  "add_constraint coeffs c ty k = add_row coeffs c 0 ty 0 k"

definition add_mod :: "var list \<Rightarrow> rat \<Rightarrow> rat \<Rightarrow> mbo \<Rightarrow> nat \<times> mbo" where
  "add_mod coeffs c m k =
     (let (v, k1) = add_var (rat_mod (row_value k coeffs c) m) True k
      in (v, add_row coeffs c m t_mod v k1))"

definition add_div :: "var list \<Rightarrow> rat \<Rightarrow> rat \<Rightarrow> mbo \<Rightarrow> nat \<times> mbo" where
  "add_div coeffs c m k =
     (let (v, k1) = add_var (rat_div (row_value k coeffs c) m) True k
      in (v, add_row coeffs c m t_div v k1))"

definition add_divides :: "var list \<Rightarrow> rat \<Rightarrow> rat \<Rightarrow> mbo \<Rightarrow> mbo" where
  "add_divides coeffs c m k = add_row coeffs c m t_divides 0 k"

definition set_objective :: "var list \<Rightarrow> rat \<Rightarrow> mbo \<Rightarrow> mbo" where
  "set_objective coeffs c k = k\<lparr>m_objective := Some (coeffs, c)\<rparr>"

section \<open>The linearizers of mbp\_arith.cpp\<close>

text \<open>
  The exceptions the plugin throws, by their messages:
  "mbp evaluation didn't produce a truth value", "mbp evaluation didn't produce an
  integer", "mbp evaluation was only partial" and "evaluation did not produce a numeral".
\<close>

datatype error = NoTruthValue | NoInteger | OnlyPartial | NoNumeral

text \<open>
  What a call reads but does not own: the evaluator of the call's model, by its
  model-completion flag (\<open>eval(e)\<close> is \<open>ev env completion e\<close>), and the answer of
  \<open>m.inc()\<close>, the host's cancellation flag, taken as constant through a call.
\<close>

record env =
  ev :: "bool \<Rightarrow> expr \<Rightarrow> expr"
  inc :: bool

text \<open>
  What the linearizers share by reference: the kernel, the formula vector, the
  \<open>tids\<close> map and the evaluator's model-completion flag. The two \<open>obj_map\<close>s of the
  source are association lists in insertion order; the source iterates them in
  hash-table order, which no definition here depends on beyond the order of the
  coefficient vectors.
\<close>

record lin_state =
  mbo :: mbo
  fmls :: "expr list"
  tids :: "(expr \<times> nat) list"
  completion :: bool

definition insert_mul :: "expr \<Rightarrow> rat \<Rightarrow> (expr \<times> rat) list \<Rightarrow> (expr \<times> rat) list" where
  "insert_mul x v ts =
     (case map_of ts x of
        Some w \<Rightarrow> AList.update x (w + v) ts
      | None \<Rightarrow> AList.update x v ts)"

fun extract_loop ::
  "env \<Rightarrow> (expr \<times> rat) list \<Rightarrow> lin_state \<Rightarrow> var list \<Rightarrow> error + (var list \<times> lin_state)" where
  "extract_loop env [] s coeffs = Inr (coeffs, s)"
| "extract_loop env ((v, k) # rest) s coeffs =
     (case map_of (tids s) v of
        Some i \<Rightarrow>
          extract_loop env rest s
            (if k \<noteq> 0 then coeffs @ [\<lparr>m_id = i, m_coeff = k\<rparr>] else coeffs)
      | None \<Rightarrow>
          (case is_numeral (ev env (completion s) v) of
             None \<Rightarrow> Inl OnlyPartial
           | Some r \<Rightarrow>
               (let (i, k1) = add_var r (is_int v) (mbo s);
                    s1 = s\<lparr>mbo := k1, tids := AList.update v i (tids s)\<rparr>
                in extract_loop env rest s1
                     (if k \<noteq> 0 then coeffs @ [\<lparr>m_id = i, m_coeff = k\<rparr>] else coeffs))))"

definition extract_coefficients ::
  "env \<Rightarrow> (expr \<times> rat) list \<Rightarrow> lin_state \<Rightarrow> error + (var list \<times> lin_state)" where
  "extract_coefficients env ts s = extract_loop env ts (s\<lparr>completion := True\<rparr>) []"

text \<open>The guard \<open>is_numeral(t2, mul1) && mul1 > 0\<close>, with the numeral it binds.\<close>

definition pos_numeral :: "expr \<Rightarrow> rat option" where
  "pos_numeral t2 =
     (case is_extended_numeral t2 of
        Some mul1 \<Rightarrow> if mul1 > 0 then Some mul1 else None
      | None \<Rightarrow> None)"

function linearize_term ::
  "env \<Rightarrow> rat \<Rightarrow> expr \<Rightarrow> rat \<times> (expr \<times> rat) list \<times> lin_state \<Rightarrow>
   error + (rat \<times> (expr \<times> rat) list \<times> lin_state)"
and linearize_args ::
  "env \<Rightarrow> rat \<Rightarrow> expr list \<Rightarrow> rat \<times> (expr \<times> rat) list \<times> lin_state \<Rightarrow>
   error + (rat \<times> (expr \<times> rat) list \<times> lin_state)"
where
  "linearize_term env mul t (c, ts, s) =
     (if map_of (tids s) t \<noteq> None then Inr (c, insert_mul t mul ts, s)
      else case t of
        EMul as \<Rightarrow>
          (case as of
             [t1, t2] \<Rightarrow>
               (case is_extended_numeral t1 of
                  Some mul1 \<Rightarrow> linearize_term env (mul * mul1) t2 (c, ts, s)
                | None \<Rightarrow>
                    (case is_extended_numeral t2 of
                       Some mul1 \<Rightarrow> linearize_term env (mul * mul1) t1 (c, ts, s)
                     | None \<Rightarrow> Inr (c, insert_mul t mul ts, s)))
           | _ \<Rightarrow> Inr (c, insert_mul t mul ts, s))
      | EUminus t1 \<Rightarrow> linearize_term env (- mul) t1 (c, ts, s)
      | Numeral mul1 i \<Rightarrow> Inr (c + mul * mul1, ts, s)
      | EAdd as \<Rightarrow> linearize_args env mul as (c, ts, s)
      | ESub t1 t2 \<Rightarrow>
          (case linearize_term env mul t1 (c, ts, s) of
             Inl e \<Rightarrow> Inl e
           | Inr st \<Rightarrow> linearize_term env (- mul) t2 st)
      | EIte t1 t2 t3 \<Rightarrow>
          (let val = ev env (completion s) t1 in
           if val = ETrue then
             (case linearize_term env mul t2 (c, ts, s) of
                Inl e \<Rightarrow> Inl e
              | Inr (c1, ts1, s1) \<Rightarrow> Inr (c1, ts1, s1\<lparr>fmls := fmls s1 @ [t1]\<rparr>))
           else if val = EFalse then
             linearize_term env mul t3 (c, ts, s\<lparr>fmls := fmls s @ [mk_not t1]\<rparr>)
           else Inl NoTruthValue)
      | EMod t1 t2 \<Rightarrow>
          (case pos_numeral t2 of
             Some mul1 \<Rightarrow>
               (case linearize_term env 1 t1 (0, [], s) of
                  Inl e \<Rightarrow> Inl e
                | Inr (c0, ts0, s1) \<Rightarrow>
                    (case extract_coefficients env ts0 s1 of
                       Inl e \<Rightarrow> Inl e
                     | Inr (coeffs, s2) \<Rightarrow>
                         (let (v, k) = add_mod coeffs c0 mul1 (mbo s2)
                          in Inr (c, insert_mul t mul ts,
                                  s2\<lparr>mbo := k, tids := AList.update t v (tids s2)\<rparr>))))
           | None \<Rightarrow>
               (case pos_numeral t2 of
                  Some mul1 \<Rightarrow>
                    (case is_numeral (ev env (completion s) t) of
                       None \<Rightarrow> Inl NoInteger
                     | Some r \<Rightarrow>
                         (case linearize_term env 1 t1 (- r, [], s) of
                            Inl e \<Rightarrow> Inl e
                          | Inr (c0, ts0, s1) \<Rightarrow>
                              (case extract_coefficients env ts0 s1 of
                                 Inl e \<Rightarrow> Inl e
                               | Inr (coeffs, s2) \<Rightarrow>
                                   Inr (c + mul * r, ts,
                                        s2\<lparr>mbo := add_divides coeffs c0 mul1 (mbo s2)\<rparr>))))
                | None \<Rightarrow> Inr (c, insert_mul t mul ts, s)))
      | EIdiv t1 t2 \<Rightarrow>
          (case pos_numeral t2 of
             Some mul1 \<Rightarrow>
               (case linearize_term env 1 t1 (0, [], s) of
                  Inl e \<Rightarrow> Inl e
                | Inr (c0, ts0, s1) \<Rightarrow>
                    (case extract_coefficients env ts0 s1 of
                       Inl e \<Rightarrow> Inl e
                     | Inr (coeffs, s2) \<Rightarrow>
                         (let (v, k) = add_div coeffs c0 mul1 (mbo s2)
                          in Inr (c, insert_mul t mul ts,
                                  s2\<lparr>mbo := k, tids := AList.update t v (tids s2)\<rparr>))))
           | None \<Rightarrow> Inr (c, insert_mul t mul ts, s))
      | _ \<Rightarrow> Inr (c, insert_mul t mul ts, s))"
| "linearize_args env mul [] st = Inr st"
| "linearize_args env mul (a # as) st =
     (case linearize_term env mul a st of
        Inl e \<Rightarrow> Inl e
      | Inr st1 \<Rightarrow> linearize_args env mul as st1)"
  by pat_completeness auto
termination
  by (relation "measure (\<lambda>x. case x of
                  Inl (env, mul, t, st) \<Rightarrow> size t
                | Inr (env, mul, as, st) \<Rightarrow> size_list size as)") auto

subsection \<open>Equations and an induction rule for the term linearizer\<close>

text \<open>
  One equation for each shape of term, and an induction rule over the runs of the term
  linearizer that return: one case for each arm of the dispatch.
\<close>

lemma extract_loop_fmls:
  "extract_loop env ts s coeffs = Inr (coeffs', s') \<Longrightarrow> fmls s' = fmls s"
  by (induction ts arbitrary: s coeffs) (auto simp: add_var_def Let_def split: option.splits prod.splits)

lemma extract_coefficients_fmls:
  "extract_coefficients env ts s = Inr (coeffs', s') \<Longrightarrow> fmls s' = fmls s"
  by (auto simp: extract_coefficients_def dest: extract_loop_fmls)

lemma size_mk_not: "size (mk_not e) \<le> Suc (size e)"
  by (cases e) (auto simp: mk_not_def)

lemma linearize_term_in_tids:
  "map_of (tids s) t = Some i \<Longrightarrow>
   linearize_term env mul t (c, ts, s) = Inr (c, insert_mul t mul ts, s)"
  by simp

lemma linearize_term_opaque:
  "map_of (tids s) t = None \<Longrightarrow>
   (case t of EMul as \<Rightarrow> False | EUminus a \<Rightarrow> False | Numeral r i \<Rightarrow> False | EAdd as \<Rightarrow> False
    | ESub a b \<Rightarrow> False | EIte g a b \<Rightarrow> False | EMod a b \<Rightarrow> False | EIdiv a b \<Rightarrow> False
    | _ \<Rightarrow> True) \<Longrightarrow>
   linearize_term env mul t (c, ts, s) = Inr (c, insert_mul t mul ts, s)"
  by (cases t) simp_all

lemma linearize_term_EMul:
  "map_of (tids s) (EMul as) = None \<Longrightarrow>
   linearize_term env mul (EMul as) (c, ts, s) =
     (case as of
        [t1, t2] \<Rightarrow>
          (case is_extended_numeral t1 of
             Some mul1 \<Rightarrow> linearize_term env (mul * mul1) t2 (c, ts, s)
           | None \<Rightarrow>
               (case is_extended_numeral t2 of
                  Some mul1 \<Rightarrow> linearize_term env (mul * mul1) t1 (c, ts, s)
                | None \<Rightarrow> Inr (c, insert_mul (EMul as) mul ts, s)))
      | _ \<Rightarrow> Inr (c, insert_mul (EMul as) mul ts, s))"
  by simp

lemma linearize_term_EUminus:
  "map_of (tids s) (EUminus t1) = None \<Longrightarrow>
   linearize_term env mul (EUminus t1) (c, ts, s) = linearize_term env (- mul) t1 (c, ts, s)"
  by simp

lemma linearize_term_Numeral:
  "map_of (tids s) (Numeral mul1 i) = None \<Longrightarrow>
   linearize_term env mul (Numeral mul1 i) (c, ts, s) = Inr (c + mul * mul1, ts, s)"
  by simp

lemma linearize_term_EAdd:
  "map_of (tids s) (EAdd as) = None \<Longrightarrow>
   linearize_term env mul (EAdd as) (c, ts, s) = linearize_args env mul as (c, ts, s)"
  by simp

lemma linearize_term_ESub:
  "map_of (tids s) (ESub t1 t2) = None \<Longrightarrow>
   linearize_term env mul (ESub t1 t2) (c, ts, s) =
     (case linearize_term env mul t1 (c, ts, s) of
        Inl e \<Rightarrow> Inl e
      | Inr st \<Rightarrow> linearize_term env (- mul) t2 st)"
  by simp

lemma linearize_term_EIte:
  "map_of (tids s) (EIte t1 t2 t3) = None \<Longrightarrow>
   linearize_term env mul (EIte t1 t2 t3) (c, ts, s) =
     (if ev env (completion s) t1 = ETrue then
        (case linearize_term env mul t2 (c, ts, s) of
           Inl e \<Rightarrow> Inl e
         | Inr (c1, ts1, s1) \<Rightarrow> Inr (c1, ts1, s1\<lparr>fmls := fmls s1 @ [t1]\<rparr>))
      else if ev env (completion s) t1 = EFalse then
        linearize_term env mul t3 (c, ts, s\<lparr>fmls := fmls s @ [mk_not t1]\<rparr>)
      else Inl NoTruthValue)"
  by (simp add: Let_def)

lemma linearize_term_EMod:
  "map_of (tids s) (EMod t1 t2) = None \<Longrightarrow>
   linearize_term env mul (EMod t1 t2) (c, ts, s) =
     (case pos_numeral t2 of
        Some mul1 \<Rightarrow>
          (case linearize_term env 1 t1 (0, [], s) of
             Inl e \<Rightarrow> Inl e
           | Inr (c0, ts0, s1) \<Rightarrow>
               (case extract_coefficients env ts0 s1 of
                  Inl e \<Rightarrow> Inl e
                | Inr (coeffs, s2) \<Rightarrow>
                    Inr (c, insert_mul (EMod t1 t2) mul ts,
                         s2\<lparr>mbo := snd (add_mod coeffs c0 mul1 (mbo s2)),
                            tids := AList.update (EMod t1 t2)
                                      (fst (add_mod coeffs c0 mul1 (mbo s2))) (tids s2)\<rparr>)))
      | None \<Rightarrow> Inr (c, insert_mul (EMod t1 t2) mul ts, s))"
  by (simp add: Let_def split: option.splits sum.splits prod.splits)

lemma linearize_term_EIdiv:
  "map_of (tids s) (EIdiv t1 t2) = None \<Longrightarrow>
   linearize_term env mul (EIdiv t1 t2) (c, ts, s) =
     (case pos_numeral t2 of
        Some mul1 \<Rightarrow>
          (case linearize_term env 1 t1 (0, [], s) of
             Inl e \<Rightarrow> Inl e
           | Inr (c0, ts0, s1) \<Rightarrow>
               (case extract_coefficients env ts0 s1 of
                  Inl e \<Rightarrow> Inl e
                | Inr (coeffs, s2) \<Rightarrow>
                    Inr (c, insert_mul (EIdiv t1 t2) mul ts,
                         s2\<lparr>mbo := snd (add_div coeffs c0 mul1 (mbo s2)),
                            tids := AList.update (EIdiv t1 t2)
                                      (fst (add_div coeffs c0 mul1 (mbo s2))) (tids s2)\<rparr>)))
      | None \<Rightarrow> Inr (c, insert_mul (EIdiv t1 t2) mul ts, s))"
  by (simp add: Let_def split: option.splits sum.splits prod.splits)

lemmas linearize_term_cases =
  linearize_term_EMul linearize_term_EUminus linearize_term_Numeral linearize_term_EAdd
  linearize_term_ESub linearize_term_EIte linearize_term_EMod linearize_term_EIdiv

declare linearize_term.simps [simp del]




lemma linearize_induct [consumes 1, case_names leaf num mulL mulR uminus add sub ite_true ite_false mod idiv nil cons]:
  assumes run: "linearize_term env mul0 t0 st0 = Inr st0'"
  and leaf: "\<And>mul t c ts s. P mul t (c, ts, s) (c, insert_mul t mul ts, s)"
  and num: "\<And>mul r i c ts s. P mul (Numeral r i) (c, ts, s) (c + mul * r, ts, s)"
  and mulL: "\<And>mul t1 t2 mul1 st st'.
      is_extended_numeral t1 = Some mul1 \<Longrightarrow>
      linearize_term env (mul * mul1) t2 st = Inr st' \<Longrightarrow>
      P (mul * mul1) t2 st st' \<Longrightarrow> P mul (EMul [t1, t2]) st st'"
  and mulR: "\<And>mul t1 t2 mul1 st st'.
      is_extended_numeral t1 = None \<Longrightarrow> is_extended_numeral t2 = Some mul1 \<Longrightarrow>
      linearize_term env (mul * mul1) t1 st = Inr st' \<Longrightarrow>
      P (mul * mul1) t1 st st' \<Longrightarrow> P mul (EMul [t1, t2]) st st'"
  and uminus: "\<And>mul t1 st st'.
      linearize_term env (- mul) t1 st = Inr st' \<Longrightarrow>
      P (- mul) t1 st st' \<Longrightarrow> P mul (EUminus t1) st st'"
  and add: "\<And>mul as st st'.
      linearize_args env mul as st = Inr st' \<Longrightarrow>
      Q mul as st st' \<Longrightarrow> P mul (EAdd as) st st'"
  and sub: "\<And>mul t1 t2 st st1 st'.
      linearize_term env mul t1 st = Inr st1 \<Longrightarrow> P mul t1 st st1 \<Longrightarrow>
      linearize_term env (- mul) t2 st1 = Inr st' \<Longrightarrow> P (- mul) t2 st1 st' \<Longrightarrow>
      P mul (ESub t1 t2) st st'"
  and ite_true: "\<And>mul t1 t2 t3 c ts s c1 ts1 s1.
      ev env (completion s) t1 = ETrue \<Longrightarrow>
      linearize_term env mul t2 (c, ts, s) = Inr (c1, ts1, s1) \<Longrightarrow>
      P mul t2 (c, ts, s) (c1, ts1, s1) \<Longrightarrow>
      P mul (EIte t1 t2 t3) (c, ts, s) (c1, ts1, s1\<lparr>fmls := fmls s1 @ [t1]\<rparr>)"
  and ite_false: "\<And>mul t1 t2 t3 c ts s st'.
      ev env (completion s) t1 = EFalse \<Longrightarrow>
      linearize_term env mul t3 (c, ts, s\<lparr>fmls := fmls s @ [mk_not t1]\<rparr>) = Inr st' \<Longrightarrow>
      P mul t3 (c, ts, s\<lparr>fmls := fmls s @ [mk_not t1]\<rparr>) st' \<Longrightarrow>
      P mul (EIte t1 t2 t3) (c, ts, s) st'"
  and mod: "\<And>mul t1 t2 mul1 c ts s c0 ts0 s1 coeffs s2.
      map_of (tids s) (EMod t1 t2) = None \<Longrightarrow>
      pos_numeral t2 = Some mul1 \<Longrightarrow>
      linearize_term env 1 t1 (0, [], s) = Inr (c0, ts0, s1) \<Longrightarrow>
      P 1 t1 (0, [], s) (c0, ts0, s1) \<Longrightarrow>
      extract_coefficients env ts0 s1 = Inr (coeffs, s2) \<Longrightarrow>
      P mul (EMod t1 t2) (c, ts, s)
        (c, insert_mul (EMod t1 t2) mul ts,
         s2\<lparr>mbo := snd (add_mod coeffs c0 mul1 (mbo s2)),
            tids := AList.update (EMod t1 t2) (fst (add_mod coeffs c0 mul1 (mbo s2))) (tids s2)\<rparr>)"
  and idiv: "\<And>mul t1 t2 mul1 c ts s c0 ts0 s1 coeffs s2.
      map_of (tids s) (EIdiv t1 t2) = None \<Longrightarrow>
      pos_numeral t2 = Some mul1 \<Longrightarrow>
      linearize_term env 1 t1 (0, [], s) = Inr (c0, ts0, s1) \<Longrightarrow>
      P 1 t1 (0, [], s) (c0, ts0, s1) \<Longrightarrow>
      extract_coefficients env ts0 s1 = Inr (coeffs, s2) \<Longrightarrow>
      P mul (EIdiv t1 t2) (c, ts, s)
        (c, insert_mul (EIdiv t1 t2) mul ts,
         s2\<lparr>mbo := snd (add_div coeffs c0 mul1 (mbo s2)),
            tids := AList.update (EIdiv t1 t2) (fst (add_div coeffs c0 mul1 (mbo s2))) (tids s2)\<rparr>)"
  and nil: "\<And>mul st. Q mul [] st st"
  and cons: "\<And>mul a as st st1 st'.
      linearize_term env mul a st = Inr st1 \<Longrightarrow> P mul a st st1 \<Longrightarrow>
      linearize_args env mul as st1 = Inr st' \<Longrightarrow> Q mul as st1 st' \<Longrightarrow>
      Q mul (a # as) st st'"
  shows "P mul0 t0 st0 st0'"
proof -
  have "env' = env \<Longrightarrow> linearize_term env' mul t st = Inr st' \<Longrightarrow> P mul t st st'"
   and "env' = env \<Longrightarrow> linearize_args env' mul as st = Inr st' \<Longrightarrow> Q mul as st st'"
    for env' mul t st as st'
  proof (induction env' mul t st and env' mul as st arbitrary: st' and st'
         rule: linearize_term_linearize_args.induct)
    case (1 env' mul t c ts s)
    note IH = 1(1-11) and e = 1(12) and res = 1(13)
    show ?case
    proof -
      show "P mul t (c, ts, s) st'"
      proof (cases "map_of (tids s) t")
        case (Some a)
        then show ?thesis using res leaf by (auto simp: linearize_term_in_tids)
      next
        case None
        show ?thesis
        proof (cases t)
          case (ESub a b)
          from res None ESub obtain st1 where
            a: "linearize_term env' mul a (c, ts, s) = Inr st1"
            and b: "linearize_term env' (- mul) b st1 = Inr st'"
            by (auto simp: linearize_term_cases split: sum.splits)
          have "P mul a (c, ts, s) st1" using IH(4)[OF _ ESub] None a e by simp
          moreover have "P (- mul) b st1 st'" using IH(5)[OF _ ESub a e b] None by simp
          ultimately show ?thesis using sub a b e ESub by simp
        next
          case (EUminus a)
          from res None EUminus have a: "linearize_term env' (- mul) a (c, ts, s) = Inr st'"
            by (simp add: linearize_term_cases)
          have "P (- mul) a (c, ts, s) st'" using IH(6)[OF _ EUminus e a] None by simp
          then show ?thesis using uminus a e EUminus by simp
        next
          case (EAdd as)
          from res None EAdd have a: "linearize_args env' mul as (c, ts, s) = Inr st'"
            by (simp add: linearize_term_cases)
          have "Q mul as (c, ts, s) st'" using IH(3)[OF _ EAdd e a] None by simp
          then show ?thesis using add a e EAdd by simp
        next
          case (EIte g a b)
          show ?thesis
          proof (cases "ev env' (completion s) g = ETrue")
            case True
            from res None EIte True obtain c1 ts1 s1 where
              a: "linearize_term env' mul a (c, ts, s) = Inr (c1, ts1, s1)"
              and st': "st' = (c1, ts1, s1\<lparr>fmls := fmls s1 @ [g]\<rparr>)"
              by (auto simp: linearize_term_cases split: sum.splits)
            have "P mul a (c, ts, s) (c1, ts1, s1)"
              using IH(1)[OF _ EIte refl True e a] None by simp
            then show ?thesis using ite_true True a e EIte st' by simp
          next
            case False
            with res None EIte have ef: "ev env' (completion s) g = EFalse"
              and b: "linearize_term env' mul b (c, ts, s\<lparr>fmls := fmls s @ [mk_not g]\<rparr>) = Inr st'"
              by (auto simp: linearize_term_cases split: if_splits)
            have "P mul b (c, ts, s\<lparr>fmls := fmls s @ [mk_not g]\<rparr>) st'"
              using IH(2)[OF _ EIte refl False ef e b] None by simp
            then show ?thesis using ite_false ef b e EIte by simp
          qed
        next
          case (EMul as)
          from res None EMul consider
            (opq) "st' = (c, insert_mul t mul ts, s)"
          | (l) t1 t2 mul1 where "as = [t1, t2]" "is_extended_numeral t1 = Some mul1"
              "linearize_term env' (mul * mul1) t2 (c, ts, s) = Inr st'"
          | (r) t1 t2 mul1 where "as = [t1, t2]" "is_extended_numeral t1 = None"
              "is_extended_numeral t2 = Some mul1"
              "linearize_term env' (mul * mul1) t1 (c, ts, s) = Inr st'"
            by (auto simp: linearize_term_cases split: list.splits option.splits)
          then show ?thesis
          proof cases
            case opq
            then show ?thesis using leaf by simp
          next
            case l
            have "P (mul * mul1) t2 (c, ts, s) st'"
              using IH(8)[OF _ EMul l(1) refl refl l(2) e l(3)] None by simp
            then show ?thesis using mulL l e EMul by simp
          next
            case r
            have "P (mul * mul1) t1 (c, ts, s) st'"
              using IH(7)[OF _ EMul r(1) refl refl r(2) r(3) e r(4)] None by simp
            then show ?thesis using mulR r e EMul by simp
          qed
        next
          case (EMod a b)
          show ?thesis
          proof (cases "pos_numeral b")
            case None': None
            then show ?thesis using res None EMod leaf by (auto simp: linearize_term_cases)
          next
            case (Some mul1)
            from res None EMod Some obtain c0 ts0 s1 coeffs s2 where
              a: "linearize_term env' 1 a (0, [], s) = Inr (c0, ts0, s1)"
              and x: "extract_coefficients env' ts0 s1 = Inr (coeffs, s2)"
              and st': "st' = (c, insert_mul (EMod a b) mul ts,
                 s2\<lparr>mbo := snd (add_mod coeffs c0 mul1 (mbo s2)),
                    tids := AList.update (EMod a b) (fst (add_mod coeffs c0 mul1 (mbo s2))) (tids s2)\<rparr>)"
              by (auto simp: linearize_term_cases split: sum.splits)
            have p: "P 1 a (0, [], s) (c0, ts0, s1)" using IH(10)[OF _ EMod Some e a] None by simp
            show ?thesis unfolding st' EMod
              by (rule mod[OF None[unfolded EMod] Some a[unfolded e] p x[unfolded e]])
          qed
        next
          case (EIdiv a b)
          show ?thesis
          proof (cases "pos_numeral b")
            case None': None
            then show ?thesis using res None EIdiv leaf by (auto simp: linearize_term_cases)
          next
            case (Some mul1)
            from res None EIdiv Some obtain c0 ts0 s1 coeffs s2 where
              a: "linearize_term env' 1 a (0, [], s) = Inr (c0, ts0, s1)"
              and x: "extract_coefficients env' ts0 s1 = Inr (coeffs, s2)"
              and st': "st' = (c, insert_mul (EIdiv a b) mul ts,
                 s2\<lparr>mbo := snd (add_div coeffs c0 mul1 (mbo s2)),
                    tids := AList.update (EIdiv a b) (fst (add_div coeffs c0 mul1 (mbo s2))) (tids s2)\<rparr>)"
              by (auto simp: linearize_term_cases split: sum.splits)
            have p: "P 1 a (0, [], s) (c0, ts0, s1)" using IH(11)[OF _ EIdiv Some e a] None by simp
            show ?thesis unfolding st' EIdiv
              by (rule idiv[OF None[unfolded EIdiv] Some a[unfolded e] p x[unfolded e]])
          qed
        next
          case (Numeral r i)
          then show ?thesis using res None num by (auto simp: linearize_term_cases)
        qed (insert None res leaf, auto simp: linearize_term_opaque)
      qed
    qed
  next
    case (2 env' mul st)
    then show ?case using nil by simp
  next
    case (3 env' mul a as st)
    note e = 3(3) and res = 3(4)
    show ?case
    proof -
      from res obtain st1 where
        a: "linearize_term env' mul a st = Inr st1" and b: "linearize_args env' mul as st1 = Inr st'"
        by (auto split: sum.splits)
      have "P mul a st st1" using 3(1)[OF e a] .
      moreover have "Q mul as st1 st'" using 3(2)[OF a e b] .
      ultimately show "Q mul (a # as) st st'" using cons a b e by simp
    qed
  qed
  then show ?thesis using run by simp
qed


text \<open>
  The literal linearizer. \<open>DEBUG_CODE\<close> is compiled out of a release build and is
  not modelled. \<open>linearize_sides\<close> is the pair of calls every arithmetic arm makes on
  the fresh accumulator (\<open>c = 0\<close>, \<open>ts\<close> empty); \<open>submit\<close> is the tail of the
  function: coefficient extraction and \<open>mbo.add_constraint\<close>.
\<close>

definition linearize_sides ::
  "env \<Rightarrow> rat \<Rightarrow> expr \<Rightarrow> expr \<Rightarrow> lin_state \<Rightarrow>
   error + (rat \<times> (expr \<times> rat) list \<times> lin_state)" where
  "linearize_sides env mul e1 e2 s =
     (case linearize_term env mul e1 (0, [], s) of
        Inl e \<Rightarrow> Inl e
      | Inr st \<Rightarrow> linearize_term env (- mul) e2 st)"

definition submit ::
  "env \<Rightarrow> ineq_type \<Rightarrow> error + (rat \<times> (expr \<times> rat) list \<times> lin_state) \<Rightarrow>
   error + (bool \<times> lin_state)" where
  "submit env ty r =
     (case r of
        Inl e \<Rightarrow> Inl e
      | Inr (c, ts, s) \<Rightarrow>
          (case extract_coefficients env ts s of
             Inl e \<Rightarrow> Inl e
           | Inr (coeffs, s1) \<Rightarrow>
               Inr (True, s1\<lparr>mbo := add_constraint coeffs c ty (mbo s1)\<rparr>)))"

text \<open>\<open>m.is_not(lit, lit)\<close>: one negation is stripped, and whether there was one.\<close>

definition strip_not :: "expr \<Rightarrow> bool \<times> expr" where
  "strip_not lit = (case lit of ENot a \<Rightarrow> (True, a) | _ \<Rightarrow> (False, lit))"

text \<open>
  The arguments of a positive \<open>distinct\<close> with their model values; \<open>None\<close> when one
  of them does not evaluate to a numeral.
\<close>

fun eval_nums :: "env \<Rightarrow> bool \<Rightarrow> expr list \<Rightarrow> (expr \<times> rat) list option" where
  "eval_nums env cm [] = Some []"
| "eval_nums env cm (arg # args) =
     (case is_numeral (ev env cm arg) of
        None \<Rightarrow> None
      | Some r \<Rightarrow>
          (case eval_nums env cm args of
             None \<Rightarrow> None
           | Some nums \<Rightarrow> Some ((arg, r) # nums)))"

text \<open>
  The search of a negated \<open>distinct\<close> for two arguments of equal value: \<open>None\<close> when
  an argument does not evaluate to a numeral, \<open>Some None\<close> when no two are equal,
  otherwise the argument at hand and the earlier one of the same value.
\<close>

fun find_equal ::
  "env \<Rightarrow> bool \<Rightarrow> expr list \<Rightarrow> (rat \<times> expr) list \<Rightarrow> (expr \<times> expr) option option" where
  "find_equal env cm [] values = Some None"
| "find_equal env cm (arg1 # args) values =
     (case is_numeral (ev env cm arg1) of
        None \<Rightarrow> None
      | Some r \<Rightarrow>
          (case map_of values r of
             Some arg2 \<Rightarrow> Some (Some (arg1, arg2))
           | None \<Rightarrow> find_equal env cm args (values @ [(r, arg1)])))"

fun first_with :: "(expr \<Rightarrow> bool) \<Rightarrow> expr list \<Rightarrow> expr option" where
  "first_with P [] = None"
| "first_with P (arg # args) = (if P arg then Some arg else first_with P args)"

text \<open>
  \<open>linearize\<close> is the literal linearizer; \<open>linearize_adjacent\<close> is the loop of the
  positive \<open>distinct\<close> arm over the sorted pairs, which calls the literal linearizer
  again on each \<open>a.mk_lt\<close> it builds. \<open>std::sort\<close> is modelled by the stable sort on
  the values; the source's order of equal values is unspecified. A \<open>distinct\<close> without
  arguments, whose first argument the source would read, is refused.
\<close>

function linearize :: "env \<Rightarrow> expr \<Rightarrow> lin_state \<Rightarrow> error + (bool \<times> lin_state)"
and linearize_adjacent ::
  "env \<Rightarrow> (expr \<times> rat) list \<Rightarrow> lin_state \<Rightarrow> error + (bool \<times> lin_state)"
where
  "linearize env lit0 s =
     (if \<not> inc env then Inr (False, s)
      else
        (let is_not = fst (strip_not lit0);
             lit = snd (strip_not lit0);
             mul = (if is_not then - 1 else 1)
         in case lit of
           ELe e1 e2 \<Rightarrow>
             submit env (if is_not then t_lt else t_le) (linearize_sides env mul e1 e2 s)
         | EGe e2 e1 \<Rightarrow>
             submit env (if is_not then t_lt else t_le) (linearize_sides env mul e1 e2 s)
         | ELt e1 e2 \<Rightarrow>
             submit env (if is_not then t_le else t_lt) (linearize_sides env mul e1 e2 s)
         | EGt e2 e1 \<Rightarrow>
             submit env (if is_not then t_le else t_lt) (linearize_sides env mul e1 e2 s)
         | EEq e1 e2 \<Rightarrow>
             (if \<not> is_not \<and> is_arith e1 then
                submit env t_eq (linearize_sides env mul e1 e2 s)
              else if is_not \<and> is_arith e1 then
                (case is_numeral (ev env (completion s) e1) of
                   None \<Rightarrow> Inr (False, s)
                 | Some r1 \<Rightarrow>
                     (case is_numeral (ev env (completion s) e2) of
                        None \<Rightarrow> Inr (False, s)
                      | Some r2 \<Rightarrow>
                          (if r1 < r2
                           then submit env t_lt (linearize_sides env mul e2 e1 s)
                           else submit env t_lt (linearize_sides env mul e1 e2 s))))
              else Inr (False, s))
         | EDistinct args \<Rightarrow>
             (if args \<noteq> [] \<and> \<not> is_not \<and> is_arith (hd args) then
                (case eval_nums env (completion s) args of
                   None \<Rightarrow> Inr (False, s)
                 | Some nums \<Rightarrow> linearize_adjacent env (sort_key snd nums) s)
              else if args \<noteq> [] \<and> is_not \<and> is_arith (hd args) then
                (case find_equal env (completion s) args [] of
                   None \<Rightarrow> Inr (False, s)
                 | Some None \<Rightarrow> submit env t_le (Inr (0, [], s))
                 | Some (Some (arg1, arg2)) \<Rightarrow>
                     submit env t_eq (linearize_sides env mul arg1 arg2 s))
              else Inr (False, s))
         | EAnd args \<Rightarrow>
             (if \<not> is_not then Inr (True, s\<lparr>fmls := fmls s @ args\<rparr>)
              else
                (case first_with (\<lambda>arg. ev env (completion s) arg = EFalse) args of
                   Some arg \<Rightarrow> Inr (True, s\<lparr>fmls := fmls s @ [mk_not arg]\<rparr>)
                 | None \<Rightarrow> Inr (False, s)))
         | EOr args \<Rightarrow>
             (if is_not then Inr (True, s\<lparr>fmls := fmls s @ map mk_not args\<rparr>)
              else
                (case first_with (\<lambda>arg. ev env (completion s) arg = ETrue) args of
                   Some arg \<Rightarrow> Inr (True, s\<lparr>fmls := fmls s @ [arg]\<rparr>)
                 | None \<Rightarrow> Inr (False, s)))
         | _ \<Rightarrow> Inr (False, s)))"
| "linearize_adjacent env [] s = Inr (True, s)"
| "linearize_adjacent env [n] s = Inr (True, s)"
| "linearize_adjacent env (n1 # n2 # nums) s =
     (case linearize env (ELt (fst n1) (fst n2)) s of
        Inl e \<Rightarrow> Inl e
      | Inr (ok, s1) \<Rightarrow>
          (if \<not> ok then Inr (False, s1) else linearize_adjacent env (n2 # nums) s1))"
  by pat_completeness auto
termination
  by (relation "inv_image (less_than <*lex*> less_than) (\<lambda>x. case x of
                  Inl (env, lit, s) \<Rightarrow>
                    (case lit of EDistinct args \<Rightarrow> (2::nat, 0::nat) | _ \<Rightarrow> (0, 0))
                | Inr (env, nums, s) \<Rightarrow> (1, length nums))")
     (auto simp: strip_not_def split: expr.splits)

subsection \<open>What a run of the linearizers appends to the formula vector\<close>

text \<open>
  \<open>appended n s s'\<close>: the formula vector of \<open>s'\<close> is the one of \<open>s\<close> followed by
  literals of size at most \<open>n\<close>. The literals a run appends are guards and children of
  the literal at hand, hence smaller than it; and a run that refuses its literal leaves
  the state as it was.
\<close>

definition appended :: "nat \<Rightarrow> lin_state \<Rightarrow> lin_state \<Rightarrow> bool" where
  "appended n s s' = (\<exists>new. fmls s' = fmls s @ new \<and> (\<forall>x\<in>set new. size x \<le> n))"

lemma appended_refl: "appended n s s"
  by (simp add: appended_def)

lemma appended_trans:
  "appended n s s1 \<Longrightarrow> appended m s1 s2 \<Longrightarrow> n \<le> k \<Longrightarrow> m \<le> k \<Longrightarrow> appended k s s2"
  unfolding appended_def by fastforce

lemma appended_mono: "appended n s s' \<Longrightarrow> n \<le> m \<Longrightarrow> appended m s s'"
  unfolding appended_def by fastforce

lemma appended_push: "size g \<le> n \<Longrightarrow> appended n s (s\<lparr>fmls := fmls s @ [g]\<rparr>)"
  unfolding appended_def by simp

lemma appended_extract:
  "extract_coefficients env ts s = Inr (coeffs, s') \<Longrightarrow> appended 0 s s'"
  by (auto simp: appended_def dest: extract_coefficients_fmls)

lemma appended_upd: "appended n s s' \<Longrightarrow> appended n s (s'\<lparr>mbo := k, tids := td\<rparr>)"
  unfolding appended_def by simp

lemma appended_upd_mbo: "appended n s s' \<Longrightarrow> appended n s (s'\<lparr>mbo := k\<rparr>)"
  unfolding appended_def by simp

lemma linearize_term_appended:
  assumes "linearize_term env mul t st = Inr st'"
  shows "appended (size t) (snd (snd st)) (snd (snd st'))"
  using assms
proof (induct rule: linearize_induct
    [where Q = "\<lambda>mul as st st'. appended (size_list size as) (snd (snd st)) (snd (snd st'))"])
  case (sub mul t1 t2 st st1 st')
  from sub(2,4) show ?case by (rule appended_trans) simp_all
next
  case (ite_true mul t1 t2 t3 c ts s c1 ts1 s1)
  have "appended (size t1) s1 (s1\<lparr>fmls := fmls s1 @ [t1]\<rparr>)" by (rule appended_push) simp
  with ite_true(3) have "appended (size (EIte t1 t2 t3)) s (s1\<lparr>fmls := fmls s1 @ [t1]\<rparr>)"
    by (auto intro: appended_trans)
  then show ?case by simp
next
  case (ite_false mul t1 t2 t3 c ts s st')
  have "appended (Suc (size t1)) s (s\<lparr>fmls := fmls s @ [mk_not t1]\<rparr>)"
    by (rule appended_push) (rule size_mk_not)
  with ite_false(3) have "appended (size (EIte t1 t2 t3)) s (snd (snd st'))"
    by (auto intro: appended_trans)
  then show ?case by simp
next
  case (mod mul t1 t2 mul1 c ts s c0 ts0 s1 coeffs s2)
  have "appended (size (EMod t1 t2)) s s2"
    using mod(4) appended_extract[OF mod(5)] by (auto intro: appended_trans)
  then show ?case by (simp add: appended_upd)
next
  case (idiv mul t1 t2 mul1 c ts s c0 ts0 s1 coeffs s2)
  have "appended (size (EIdiv t1 t2)) s s2"
    using idiv(4) appended_extract[OF idiv(5)] by (auto intro: appended_trans)
  then show ?case by (simp add: appended_upd)
next
  case (cons mul a as st st1 st')
  from cons(2,4) show ?case by (rule appended_trans) simp_all
qed (auto simp: appended_refl elim: appended_mono)

lemma submit_sides_appended:
  assumes "submit env ty (linearize_sides env mul e1 e2 s) = Inr (ok, s')"
  shows "ok \<and> appended (max (size e1) (size e2)) s s'"
proof -
  from assms obtain st1 c ts s2 coeffs s3 where
    a: "linearize_term env mul e1 (0, [], s) = Inr st1"
    and b: "linearize_term env (- mul) e2 st1 = Inr (c, ts, s2)"
    and x: "extract_coefficients env ts s2 = Inr (coeffs, s3)"
    and s': "s' = s3\<lparr>mbo := add_constraint coeffs c ty (mbo s3)\<rparr>" and ok: ok
    by (auto simp: submit_def linearize_sides_def split: sum.splits prod.splits)
  have "appended (max (size e1) (size e2)) s s2"
    using linearize_term_appended[OF a] linearize_term_appended[OF b]
    by (auto intro: appended_trans)
  with appended_extract[OF x] have "appended (max (size e1) (size e2)) s s3"
    by (auto intro: appended_trans)
  then show ?thesis using ok s' by (simp add: appended_upd_mbo)
qed


lemma linearize_ELt:
  "linearize env (ELt a b) s =
     (if \<not> inc env then Inr (False, s) else submit env t_lt (linearize_sides env 1 a b s))"
  by (simp add: linearize.simps strip_not_def)

declare linearize.simps [simp del]

lemma submit_nil_appended:
  assumes "submit env ty (Inr (0, [], s)) = Inr (ok, s')"
  shows "ok \<and> appended 0 s s'"
proof -
  from assms obtain coeffs s1 where x: "extract_coefficients env [] s = Inr (coeffs, s1)"
    and s': "s' = s1\<lparr>mbo := add_constraint coeffs 0 ty (mbo s1)\<rparr>" and ok: ok
    by (auto simp: submit_def split: sum.splits)
  show ?thesis using appended_extract[OF x] ok s' by (simp add: appended_upd_mbo)
qed

lemma linearize_adjacent_ok:
  "inc env \<Longrightarrow> linearize_adjacent env nums s = Inr (ok, s') \<Longrightarrow> ok"
proof (induction nums arbitrary: s rule: induct_list012)
  case (3 n1 n2 nums)
  from 3(3,4) obtain ok1 s1 where
    a: "submit env t_lt (linearize_sides env 1 (fst n1) (fst n2) s) = Inr (ok1, s1)"
    and b: "(if \<not> ok1 then Inr (False, s1) else linearize_adjacent env (n2 # nums) s1) = Inr (ok, s')"
    by (auto simp: linearize_ELt split: sum.splits)
  from submit_sides_appended[OF a] have ok1 by simp
  with b have "linearize_adjacent env (n2 # nums) s1 = Inr (ok, s')" by simp
  then show ?case by (rule 3(2)[OF 3(3)])
qed auto

lemma linearize_adjacent_appended:
  "linearize_adjacent env nums s = Inr (ok, s') \<Longrightarrow> \<forall>x\<in>set nums. size (fst x) \<le> n \<Longrightarrow>
   appended n s s' \<and> (\<not> ok \<longrightarrow> s' = s)"
proof (induction nums arbitrary: s rule: induct_list012)
  case (3 n1 n2 nums)
  show ?case
  proof (cases "inc env")
    case False
    then show ?thesis using 3(3) by (auto simp: linearize_ELt appended_refl)
  next
    case True
    with 3(3) obtain ok1 s1 where
      a: "submit env t_lt (linearize_sides env 1 (fst n1) (fst n2) s) = Inr (ok1, s1)"
      and b: "linearize_adjacent env (n2 # nums) s1 = Inr (ok, s')"
      using linearize_adjacent_ok[OF True 3(3)]
      by (auto simp: linearize_ELt split: sum.splits if_splits)
    have 1: "appended n s s1" using submit_sides_appended[OF a] 3(4)
      by (auto elim: appended_mono)
    have 2: "appended n s1 s'" using 3(2)[OF b] 3(4) by simp
    have "ok" using linearize_adjacent_ok[OF True 3(3)] .
    then show ?thesis using 1 2 by (auto intro: appended_trans)
  qed
qed (auto simp: appended_refl)

lemma size_in_list: "x \<in> set xs \<Longrightarrow> size x < size_list size xs"
  by (induction xs) auto

lemma eval_nums_fst: "eval_nums env cm args = Some nums \<Longrightarrow> map fst nums = args"
  by (induction args arbitrary: nums) (auto split: option.splits)

lemma find_equal_in:
  "find_equal env cm args vs = Some (Some (a, b)) \<Longrightarrow>
   a \<in> set args \<and> b \<in> set args \<union> snd ` set vs"
proof (induction args arbitrary: vs)
  case (Cons arg args)
  show ?case
  proof (cases "is_numeral (ev env cm arg)")
    case None
    then show ?thesis using Cons(2) by simp
  next
    case (Some r)
    show ?thesis
    proof (cases "map_of vs r")
      case None
      with Some Cons(2) have "find_equal env cm args (vs @ [(r, arg)]) = Some (Some (a, b))"
        by simp
      from Cons(1)[OF this] show ?thesis by auto
    next
      case (Some arg2)
      then have "(r, arg2) \<in> set vs" by (rule map_of_SomeD)
      then have "arg2 \<in> snd ` set vs" by force
      then show ?thesis using Some \<open>is_numeral (ev env cm arg) = Some r\<close> Cons(2) by auto
    qed
  qed
qed simp

lemma first_with_in: "first_with P args = Some a \<Longrightarrow> a \<in> set args \<and> P a"
  by (induction args) (auto split: if_splits)


lemma size_strip_not: "size (snd (strip_not lit)) \<le> size lit"
  by (cases lit) (auto simp: strip_not_def)

lemma linearize_cases [consumes 1, case_names refused arith tail adjacent push]:
  assumes run: "linearize env lit0 s = Inr (ok, s')"
  obtains
    (refused) "\<not> ok" "s' = s"
  | (arith) ty mul e1 e2 where
      "size e1 < size lit0" "size e2 < size lit0" "ty \<noteq> t_divides" "ty \<noteq> t_mod" "ty \<noteq> t_div"
      "submit env ty (linearize_sides env mul e1 e2 s) = Inr (ok, s')"
  | (tail) "submit env t_le (Inr (0, [], s)) = Inr (ok, s')"
  | (adjacent) args nums where
      "lit0 = EDistinct args" "inc env" "eval_nums env (completion s) args = Some nums"
      "linearize_adjacent env (sort_key snd nums) s = Inr (ok, s')"
  | (push) new where "ok" "s' = s\<lparr>fmls := fmls s @ new\<rparr>" "\<forall>x\<in>set new. size x < size lit0"
proof (cases "inc env")
  case False
  then show ?thesis using run refused by (simp add: linearize.simps)
next
  case True
  define is_not where "is_not = fst (strip_not lit0)"
  define lit where "lit = snd (strip_not lit0)"
  define mul :: rat where "mul = (if is_not then - 1 else 1)"
  have sz: "size lit \<le> size lit0" unfolding lit_def by (rule size_strip_not)
  have pos: "\<not> is_not \<Longrightarrow> lit = lit0"
    unfolding is_not_def lit_def by (cases lit0) (auto simp: strip_not_def)
  have neg: "is_not \<Longrightarrow> lit0 = ENot lit"
    unfolding is_not_def lit_def by (cases lit0) (auto simp: strip_not_def)
  note body = run[unfolded linearize.simps[of env lit0 s] Let_def,
      folded is_not_def lit_def, folded mul_def, simplified True, simplified]
  show ?thesis
  proof (cases lit)
    case (ELe e1 e2)
    with body sz show ?thesis by (intro arith[of e1 e2 "if is_not then t_lt else t_le" mul]) auto
  next
    case (EGe e2 e1)
    with body sz show ?thesis by (intro arith[of e1 e2 "if is_not then t_lt else t_le" mul]) auto
  next
    case (ELt e1 e2)
    with body sz show ?thesis by (intro arith[of e1 e2 "if is_not then t_le else t_lt" mul]) auto
  next
    case (EGt e2 e1)
    with body sz show ?thesis by (intro arith[of e1 e2 "if is_not then t_le else t_lt" mul]) auto
  next
    case (EEq e1 e2)
    show ?thesis
    proof (cases "is_arith e1")
      case False
      with body EEq show ?thesis by (intro refused) auto
    next
      case ar: True
      show ?thesis
      proof (cases is_not)
        case False
        with body EEq ar sz show ?thesis by (intro arith[of e1 e2 t_eq mul]) auto
      next
        case True
        show ?thesis
        proof (cases "is_numeral (ev env (completion s) e1)")
          case None
          with body EEq ar True show ?thesis by (intro refused) auto
        next
          case r1: (Some r1)
          show ?thesis
          proof (cases "is_numeral (ev env (completion s) e2)")
            case None
            with body EEq ar True r1 show ?thesis by (intro refused) auto
          next
            case (Some r2)
            show ?thesis
            proof (cases "r1 < r2")
              case lt: True
              with body EEq ar True r1 Some sz show ?thesis
                by (intro arith[of e2 e1 t_lt mul]) auto
            next
              case False
              with body EEq ar True r1 Some sz show ?thesis
                by (intro arith[of e1 e2 t_lt mul]) auto
            qed
          qed
        qed
      qed
    qed
  next
    case (EDistinct args)
    show ?thesis
    proof (cases "args \<noteq> [] \<and> is_arith (hd args)")
      case False
      with body EDistinct show ?thesis by (intro refused) auto
    next
      case ar: True
      show ?thesis
      proof (cases is_not)
        case False
        show ?thesis
        proof (cases "eval_nums env (completion s) args")
          case None
          with body EDistinct ar False show ?thesis by (intro refused) auto
        next
          case (Some nums)
          with body EDistinct ar False pos True show ?thesis
            by (intro adjacent[of args nums]) auto
        qed
      next
        case nt: True
        show ?thesis
        proof (cases "find_equal env (completion s) args []")
          case None
          with body EDistinct ar nt show ?thesis by (intro refused) auto
        next
          case (Some found)
          show ?thesis
          proof (cases found)
            case None
            with body EDistinct ar nt Some show ?thesis by (intro tail) auto
          next
            case (Some p)
            obtain arg1 arg2 where p: "p = (arg1, arg2)" by (cases p)
            from find_equal_in[of env "completion s" args "[]" arg1 arg2]
              \<open>find_equal env (completion s) args [] = Some found\<close> Some p
            have "arg1 \<in> set args" "arg2 \<in> set args" by auto
            then have "size arg1 < size lit0" "size arg2 < size lit0"
              using size_in_list[of arg1 args] size_in_list[of arg2 args] sz EDistinct by auto
            moreover have "submit env t_eq (linearize_sides env mul arg1 arg2 s) = Inr (ok, s')"
              using body EDistinct ar nt \<open>find_equal env (completion s) args [] = Some found\<close>
                Some p by auto
            ultimately show ?thesis by (intro arith[of arg1 arg2 t_eq mul]) auto
          qed
        qed
      qed
    qed
  next
    case (EAnd args)
    show ?thesis
    proof (cases is_not)
      case False
      have "\<forall>x\<in>set args. size x < size lit0"
        using size_in_list[of _ args] sz EAnd by fastforce
      with body EAnd False show ?thesis by (intro push[of args]) auto
    next
      case True
      show ?thesis
      proof (cases "first_with (\<lambda>arg. ev env (completion s) arg = EFalse) args")
        case None
        with body EAnd True show ?thesis by (intro refused) auto
      next
        case (Some arg)
        then have "arg \<in> set args" by (auto dest: first_with_in)
        then have "size (mk_not arg) < size lit0"
          using size_in_list[of arg args] size_mk_not[of arg] neg[OF True] EAnd by auto
        with body EAnd True Some show ?thesis by (intro push[of "[mk_not arg]"]) auto
      qed
    qed
  next
    case (EOr args)
    show ?thesis
    proof (cases is_not)
      case True
      have "\<forall>x\<in>set args. size (mk_not x) < size lit0"
      proof
        fix x assume "x \<in> set args"
        then show "size (mk_not x) < size lit0"
          using size_in_list[of x args] size_mk_not[of x] neg[OF True] EOr by auto
      qed
      with body EOr True show ?thesis by (intro push[of "map mk_not args"]) auto
    next
      case False
      show ?thesis
      proof (cases "first_with (\<lambda>arg. ev env (completion s) arg = ETrue) args")
        case None
        with body EOr False show ?thesis by (intro refused) auto
      next
        case (Some arg)
        then have "arg \<in> set args" by (auto dest: first_with_in)
        then have "size arg < size lit0"
          using size_in_list[of arg args] sz EOr by auto
        with body EOr False Some show ?thesis by (intro push[of "[arg]"]) auto
      qed
    qed
  qed (insert body, auto intro: refused)
qed


lemma linearize_appended:
  assumes "linearize env lit s = Inr (ok, s')"
  shows "(\<exists>new. fmls s' = fmls s @ new \<and> (\<forall>x\<in>set new. size x < size lit)) \<and>
         (\<not> ok \<longrightarrow> s' = s)"
  using assms
proof (cases rule: linearize_cases)
  case refused
  then show ?thesis by simp
next
  case (arith ty mul e1 e2)
  from submit_sides_appended[OF arith(6)] arith(1,2) show ?thesis
    unfolding appended_def by fastforce
next
  case tail
  then obtain coeffs s1 where x: "extract_coefficients env [] s = Inr (coeffs, s1)"
    and s': "s' = s1\<lparr>mbo := add_constraint coeffs 0 t_le (mbo s1)\<rparr>" and ok: ok
    by (auto simp: submit_def split: sum.splits)
  from extract_coefficients_fmls[OF x] s' ok show ?thesis by simp
next
  case (adjacent args nums)
  have "\<forall>x\<in>set (sort_key snd nums). size (fst x) \<le> size lit - 1"
  proof
    fix x assume "x \<in> set (sort_key snd nums)"
    then have "fst x \<in> set (map fst nums)" by auto
    then have "fst x \<in> set args" using eval_nums_fst[OF adjacent(3)] by simp
    then show "size (fst x) \<le> size lit - 1" using size_in_list[of "fst x" args] adjacent(1) by simp
  qed
  from linearize_adjacent_appended[OF adjacent(4) this] linearize_adjacent_ok[OF adjacent(2,4)]
  show ?thesis unfolding appended_def using adjacent(1) by fastforce
next
  case (push new)
  then show ?thesis by auto
qed


section \<open>Reading rows back: row2expr, id2expr, rows2fmls\<close>

text \<open>
  Modelled from the spec: \<open>a.mk_add_simplify\<close> (ast/arith_decl_plugin is not among
  the sources); section 4.7 says "reassemble the sum": no summand is the numeral zero,
  one summand is itself, several are an addition.
\<close>

definition mk_add :: "expr list \<Rightarrow> expr" where
  "mk_add ts = (case ts of [] \<Rightarrow> Numeral 0 True | [t] \<Rightarrow> t | _ \<Rightarrow> EAdd ts)"

definition mk_int :: "rat \<Rightarrow> expr" where
  "mk_int r = Numeral r True"

text \<open>
  \<open>index2expr\<close> is the pointer vector of the source, \<open>None\<close> where it holds
  \<open>nullptr\<close> or ends; \<open>def_vars\<close> is the \<open>u_map\<close> from the id a mod or div row
  defines to the row. \<open>id2expr\<close> and \<open>row2expr\<close> call each other through
  \<open>def_vars\<close>; the first argument bounds the depth of that recursion, and the result is
  \<open>None\<close> when the source yields no expression: the bound is used up (the callers pass
  one more than the number of definition rows, which only a cyclic \<open>def_vars\<close>
  exceeds, where the source recurses for ever), or \<open>index2expr\<close> has no expression
  at the id.
\<close>

fun id2expr ::
  "nat \<Rightarrow> (nat \<times> row) list \<Rightarrow> (nat \<Rightarrow> expr option) \<Rightarrow> nat \<Rightarrow> expr option"
and row2expr ::
  "nat \<Rightarrow> (nat \<times> row) list \<Rightarrow> (nat \<Rightarrow> expr option) \<Rightarrow> row \<Rightarrow> expr option"
and row_terms ::
  "nat \<Rightarrow> (nat \<times> row) list \<Rightarrow> (nat \<Rightarrow> expr option) \<Rightarrow> var list \<Rightarrow> expr list option"
where
  "id2expr 0 def_vars index2expr i = None"
| "id2expr (Suc n) def_vars index2expr i =
     (case map_of def_vars i of
        Some r \<Rightarrow> row2expr n def_vars index2expr r
      | None \<Rightarrow> index2expr i)"
| "row2expr n def_vars index2expr r =
     (case row_terms n def_vars index2expr (r_vars r) of
        None \<Rightarrow> None
      | Some ts \<Rightarrow>
          Some (case r_type r of
                  t_mod \<Rightarrow>
                    (if ts = [] then mk_int (rat_mod (r_coeff r) (r_mod r))
                     else EMod (mk_add (if r_coeff r \<noteq> 0 then ts @ [mk_int (r_coeff r)] else ts))
                            (mk_int (r_mod r)))
                | t_div \<Rightarrow>
                    (if ts = [] then mk_int (rat_div (r_coeff r) (r_mod r))
                     else EIdiv (mk_add (if r_coeff r \<noteq> 0 then ts @ [mk_int (r_coeff r)] else ts))
                            (mk_int (r_mod r)))
                | t_divides \<Rightarrow> mk_add (ts @ [mk_int (r_coeff r)])
                | _ \<Rightarrow> mk_add ts))"
| "row_terms n def_vars index2expr [] = Some []"
| "row_terms n def_vars index2expr (v # vs) =
     (case id2expr n def_vars index2expr (m_id v) of
        None \<Rightarrow> None
      | Some t \<Rightarrow>
          (case row_terms n def_vars index2expr vs of
             None \<Rightarrow> None
           | Some ts \<Rightarrow>
               (case is_numeral t of
                  Some k \<Rightarrow>
                    (if k = 0 then Some ts
                     else Some (Numeral (m_coeff v * k) (is_int t) # ts))
                | None \<Rightarrow>
                    (if m_coeff v \<noteq> 1
                     then Some (EMul [Numeral (m_coeff v) (is_int t), t] # ts)
                     else Some (t # ts)))))"

text \<open>
  The literal \<open>rows2fmls\<close> pushes for one row, \<open>Some None\<close> where it pushes none
  (a row without variables, a mod row, a div row), and \<open>None\<close> where \<open>id2expr\<close> or
  \<open>row2expr\<close> yields no expression.
\<close>

definition row2fml ::
  "nat \<Rightarrow> (nat \<times> row) list \<Rightarrow> (nat \<Rightarrow> expr option) \<Rightarrow> row \<Rightarrow> expr option option" where
  "row2fml n def_vars index2expr r =
     (if r_vars r = [] then Some None
      else if r_type r = t_mod then Some None
      else if r_type r = t_div then Some None
      else if length (r_vars r) = 1 \<and> m_coeff (hd (r_vars r)) < 0 \<and>
              (r_type r = t_eq \<or> r_type r = t_le \<or> r_type r = t_lt) then
        (case id2expr n def_vars index2expr (m_id (hd (r_vars r))) of
           None \<Rightarrow> None
         | Some t0 \<Rightarrow>
             (let t = (if m_coeff (hd (r_vars r)) \<noteq> - 1
                       then EMul [Numeral (- m_coeff (hd (r_vars r))) (is_int t0), t0]
                       else t0);
                  s = Numeral (r_coeff r) (is_int t)
              in Some (Some (case r_type r of
                               t_lt \<Rightarrow> EGt t s
                             | t_le \<Rightarrow> EGe t s
                             | _ \<Rightarrow> EEq t s))))
      else
        (case row2expr n def_vars index2expr r of
           None \<Rightarrow> None
         | Some t \<Rightarrow>
             (let s = Numeral (- r_coeff r) (r_coeff r \<in> \<int> \<and> is_int t)
              in Some (Some (case r_type r of
                               t_lt \<Rightarrow> ELt t s
                             | t_le \<Rightarrow> ELe t s
                             | t_eq \<Rightarrow> EEq t s
                             | _ \<Rightarrow> EEq (EMod t (mk_int (r_mod r))) (mk_int 0))))))"

fun rows2fmls ::
  "nat \<Rightarrow> (nat \<times> row) list \<Rightarrow> (nat \<Rightarrow> expr option) \<Rightarrow> row list \<Rightarrow> expr list \<Rightarrow>
   expr list option" where
  "rows2fmls n def_vars index2expr [] fs = Some fs"
| "rows2fmls n def_vars index2expr (r # rows) fs =
     (case row2fml n def_vars index2expr r of
        None \<Rightarrow> None
      | Some None \<Rightarrow> rows2fmls n def_vars index2expr rows fs
      | Some (Some t) \<Rightarrow> rows2fmls n def_vars index2expr rows (fs @ [t]))"


section \<open>The projection driver\<close>

text \<open>
  The linearization loop of \<open>project\<close>: \<open>i\<close> walks the formula vector, which grows
  while it is walked, and \<open>j\<close> counts the literals kept, each written back in place at
  \<open>fmls[j]\<close>. The \<open>pinned\<close> buffer only keeps references alive and is not modelled.
  The loop ends because every literal a step appends is smaller than the literal the
  step consumes: the multiset of the sizes of the literals still to visit decreases.
\<close>

definition pending :: "nat \<Rightarrow> lin_state \<Rightarrow> nat multiset" where
  "pending i s = mset (map size (drop i (fmls s)))"

lemma pending_step_ok:
  assumes i: "i < length (fmls s)" and new: "fmls s1 = fmls s @ new"
    and small: "\<forall>x\<in>set new. size x < size (fmls s ! i)"
  shows "(pending (Suc i) s1, pending i s) \<in> mult less_than"
proof -
  have 1: "pending (Suc i) s1 = mset (map size (drop (Suc i) (fmls s))) + mset (map size new)"
    using i by (simp add: pending_def new)
  have 2: "pending i s = mset (map size (drop (Suc i) (fmls s))) + {#size (fmls s ! i)#}"
    using i by (simp add: pending_def Cons_nth_drop_Suc[symmetric])
  have "\<forall>k\<in>set_mset (mset (map size new)). \<exists>j\<in>set_mset {#size (fmls s ! i)#}. (k, j) \<in> less_than"
    using small by fastforce
  then show ?thesis unfolding 1 2 by (intro one_step_implies_mult) simp_all
qed

lemma pending_step_refused:
  assumes i: "i < length (fmls s)"
  shows "(pending (Suc i) (s\<lparr>fmls := (fmls s)[j := fmls s ! i]\<rparr>), pending i s) \<in> mult less_than"
proof -
  let ?R = "mset (map size (drop (Suc i) (fmls s)))"
  let ?x = "fmls s ! i"
  have 2: "pending i s = add_mset (size ?x) ?R"
    using i by (simp add: pending_def Cons_nth_drop_Suc[symmetric])
  have "pending (Suc i) (s\<lparr>fmls := (fmls s)[j := ?x]\<rparr>) \<subset># add_mset (size ?x) ?R"
  proof (cases "Suc i \<le> j \<and> j < length (fmls s)")
    case False
    have "drop (Suc i) ((fmls s)[j := ?x]) = drop (Suc i) (fmls s)"
    proof (cases "j < Suc i")
      case True
      then show ?thesis by simp
    next
      case ge: False
      with False have "length (fmls s) \<le> j" by simp
      then show ?thesis by (simp add: list_update_beyond)
    qed
    then show ?thesis by (simp add: pending_def)
  next
    case True
    then have d: "drop (Suc i) ((fmls s)[j := ?x]) = (drop (Suc i) (fmls s))[j - Suc i := ?x]"
      by (simp add: drop_update_swap)
    have k: "j - Suc i < length (map size (drop (Suc i) (fmls s)))" using True by auto
    let ?o = "map size (drop (Suc i) (fmls s)) ! (j - Suc i)"
    have o: "?o \<in># ?R" using k by (metis nth_mem set_mset_mset)
    have "pending (Suc i) (s\<lparr>fmls := (fmls s)[j := ?x]\<rparr>) =
          mset ((map size (drop (Suc i) (fmls s)))[j - Suc i := size ?x])"
      by (simp add: pending_def d map_update)
    also have "\<dots> = add_mset (size ?x) (?R - {#?o#})"
      using k by (rule mset_update)
    also have "\<dots> \<subset># add_mset (size ?x) ?R"
      using mset_subset_diff_self[OF o] by simp
    finally show ?thesis .
  qed
  then show ?thesis unfolding 2 by (rule subset_implies_mult)
qed

function project_loop :: "env \<Rightarrow> nat \<Rightarrow> nat \<Rightarrow> lin_state \<Rightarrow> error + (nat \<times> lin_state)" where
  "project_loop env i j s =
     (if i < length (fmls s) then
        (case linearize env (fmls s ! i) s of
           Inl e \<Rightarrow> Inl e
         | Inr (ok, s1) \<Rightarrow>
             (if \<not> ok
              then project_loop env (i + 1) (j + 1) (s1\<lparr>fmls := (fmls s1)[j := fmls s ! i]\<rparr>)
              else project_loop env (i + 1) j s1))
      else Inr (j, s))"
  by pat_completeness auto
termination
proof (relation "inv_image (mult less_than) (\<lambda>(env, i, j, s). pending i s)")
  show "wf (inv_image (mult less_than) (\<lambda>(env, i, j, s). pending i s))"
    by (simp add: wf_mult)
next
  fix env i and j :: nat and s x ok s1
  assume i: "i < length (fmls s)" and run: "linearize env (fmls s ! i) s = Inr x"
    and x: "(ok, s1) = x" and ok: "\<not> ok"
  from linearize_appended[of env "fmls s ! i" s ok s1] run x ok have "s1 = s" by simp
  then show "((env, i + 1, j + 1, s1\<lparr>fmls := (fmls s1)[j := fmls s ! i]\<rparr>), env, i, j, s)
             \<in> inv_image (mult less_than) (\<lambda>(env, i, j, s). pending i s)"
    using pending_step_refused[OF i, of j] by simp
next
  fix env i and j :: nat and s x ok s1
  assume i: "i < length (fmls s)" and run: "linearize env (fmls s ! i) s = Inr x"
    and x: "(ok, s1) = x" and ok: "\<not> \<not> ok"
  from linearize_appended[of env "fmls s ! i" s ok s1] run x obtain new where
    "fmls s1 = fmls s @ new" "\<forall>x\<in>set new. size x < size (fmls s ! i)" by auto
  from pending_step_ok[OF i this]
  show "((env, i + 1, j, s1), env, i, j, s)
        \<in> inv_image (mult less_than) (\<lambda>(env, i, j, s). pending i s)"
    by simp
qed

text \<open>
  Modelled from the spec: \<open>mark_rec\<close> (ast/expr_functors is not among the sources).
  Section 4.4: an impure abstraction poisons every expression it contains; marking an
  expression marks it and every expression below it.
\<close>

fun subterms :: "expr \<Rightarrow> expr set" where
  "subterms (ENot a) = insert (ENot a) (subterms a)"
| "subterms (EAnd as) = insert (EAnd as) (\<Union>a\<in>set as. subterms a)"
| "subterms (EOr as) = insert (EOr as) (\<Union>a\<in>set as. subterms a)"
| "subterms (EEq a b) = insert (EEq a b) (subterms a \<union> subterms b)"
| "subterms (EDistinct as) = insert (EDistinct as) (\<Union>a\<in>set as. subterms a)"
| "subterms (EIte g a b) = insert (EIte g a b) (subterms g \<union> subterms a \<union> subterms b)"
| "subterms (ELe a b) = insert (ELe a b) (subterms a \<union> subterms b)"
| "subterms (ELt a b) = insert (ELt a b) (subterms a \<union> subterms b)"
| "subterms (EGe a b) = insert (EGe a b) (subterms a \<union> subterms b)"
| "subterms (EGt a b) = insert (EGt a b) (subterms a \<union> subterms b)"
| "subterms (EAdd as) = insert (EAdd as) (\<Union>a\<in>set as. subterms a)"
| "subterms (ESub a b) = insert (ESub a b) (subterms a \<union> subterms b)"
| "subterms (EUminus a) = insert (EUminus a) (subterms a)"
| "subterms (EMul as) = insert (EMul as) (\<Union>a\<in>set as. subterms a)"
| "subterms (EMod a b) = insert (EMod a b) (subterms a \<union> subterms b)"
| "subterms (EIdiv a b) = insert (EIdiv a b) (subterms a \<union> subterms b)"
| "subterms (EDiv a b) = insert (EDiv a b) (subterms a \<union> subterms b)"
| "subterms (EApp f srt as) = insert (EApp f srt as) (\<Union>a\<in>set as. subterms a)"
| "subterms e = {e}"

text \<open>The \<open>is_pure\<close> lambda of \<open>project\<close>.\<close>

definition is_pure :: "expr \<Rightarrow> bool" where
  "is_pure e =
     (case e of
        EMod x y \<Rightarrow> is_numeral y \<noteq> None
      | EIdiv x y \<Rightarrow> (case is_numeral y of Some r \<Rightarrow> r > 0 | None \<Rightarrow> False)
      | _ \<Rightarrow> False)"

text \<open>
  Modelled from the spec: the definitions the kernel returns for eliminated variables
  (section 4.8: a tree over constants, variables with a coefficient, addition,
  multiplication and division by a numeral) and the optimum of \<open>maximize\<close> (section
  4.9: a rational, possibly with an infinitesimal, or infinite).
\<close>

datatype odef = DAdd odef odef | DMul odef odef | DConst rat | DVar var | DDiv odef rat

record inf_eps =
  infinity_coeff :: rat
  rational_part :: rat
  infinitesimal :: rat

definition is_finite :: "inf_eps \<Rightarrow> bool" where
  "is_finite v = (infinity_coeff v = 0)"

text \<open>
  A model interprets function declarations (a name and a sort, for a constant) by
  values; \<open>register_decl\<close> sets the interpretation of one.
\<close>

type_synonym model = "((string \<times> sort) \<times> expr) list"

definition register_decl :: "expr \<Rightarrow> expr \<Rightarrow> model \<Rightarrow> model" where
  "register_decl e v mdl =
     (case e of UConst n srt \<Rightarrow> AList.update (n, srt) v mdl | _ \<Rightarrow> mdl)"

text \<open>
  The plugin object with its two flags, and the collaborators a call reaches through
  it: the answer of \<open>m.inc()\<close>, the evaluator of a model (by its model-completion
  flag), and the kernel's \<open>project\<close> (the definitions and the kernel after the
  elimination), \<open>get_live_rows\<close> and \<open>maximize\<close> (the optimum and the kernel with the
  optimal values).
\<close>

record imp =
  m_check_purified :: bool
  m_apply_projection :: bool
  limit_inc :: bool
  model_evaluator :: "model \<Rightarrow> bool \<Rightarrow> expr \<Rightarrow> expr"
  mbo_project :: "mbo \<Rightarrow> nat list \<Rightarrow> bool \<Rightarrow> odef option list \<times> mbo"
  mbo_get_live_rows :: "mbo \<Rightarrow> row list"
  mbo_maximize :: "mbo \<Rightarrow> inf_eps \<times> mbo"

text \<open>
  The second loop of \<open>project\<close>: every arithmetic variable without an id gets one,
  with its model value. \<open>Inr None\<close> is the \<open>return false\<close> on cancellation.
\<close>

fun register_vars :: "env \<Rightarrow> expr list \<Rightarrow> lin_state \<Rightarrow> error + lin_state option" where
  "register_vars env [] s = Inr (Some s)"
| "register_vars env (v # vs) s =
     (if is_arith v \<and> map_of (tids s) v = None then
        (if \<not> inc env then Inr None
         else
           (case is_numeral (ev env (completion s) v) of
              None \<Rightarrow> Inl NoNumeral
            | Some r \<Rightarrow>
                (let (i, k) = add_var r (is_int v) (mbo s)
                 in register_vars env vs (s\<lparr>mbo := k, tids := AList.update v i (tids s)\<rparr>))))
      else register_vars env vs s)"

text \<open>
  \<open>from_def\<close> and \<open>optdefs2mbpdef\<close>: \<open>None\<close> where the source dereferences a null
  definition or reads past \<open>real_vars\<close> or \<open>index2expr\<close>.
\<close>

fun from_def ::
  "nat \<Rightarrow> (nat \<times> row) list \<Rightarrow> odef \<Rightarrow> bool \<Rightarrow> (nat \<Rightarrow> expr option) \<Rightarrow> expr option" where
  "from_def n def_vars (DAdd x y) isint index2expr =
     (case from_def n def_vars x isint index2expr of
        None \<Rightarrow> None
      | Some a \<Rightarrow>
          (case from_def n def_vars y isint index2expr of
             None \<Rightarrow> None
           | Some b \<Rightarrow> Some (EAdd [a, b])))"
| "from_def n def_vars (DMul x y) isint index2expr =
     (case from_def n def_vars x isint index2expr of
        None \<Rightarrow> None
      | Some a \<Rightarrow>
          (case from_def n def_vars y isint index2expr of
             None \<Rightarrow> None
           | Some b \<Rightarrow> Some (EMul [a, b])))"
| "from_def n def_vars (DConst c) isint index2expr = Some (Numeral c isint)"
| "from_def n def_vars (DVar v) isint index2expr =
     (case id2expr n def_vars index2expr (m_id v) of
        None \<Rightarrow> None
      | Some t \<Rightarrow> Some (if m_coeff v \<noteq> 1 then EMul [Numeral (m_coeff v) isint, t] else t))"
| "from_def n def_vars (DDiv x m) isint index2expr =
     (case from_def n def_vars x isint index2expr of
        None \<Rightarrow> None
      | Some t \<Rightarrow>
          Some (if isint then EIdiv t (Numeral m isint) else EDiv t (Numeral m isint)))"

fun optdefs2mbpdef ::
  "nat \<Rightarrow> (nat \<times> row) list \<Rightarrow> odef option list \<Rightarrow> (nat \<Rightarrow> expr option) \<Rightarrow> nat list \<Rightarrow>
   (expr \<times> expr) list \<Rightarrow> (expr \<times> expr) list option" where
  "optdefs2mbpdef n def_vars [] index2expr real_vars result = Some result"
| "optdefs2mbpdef n def_vars (d # ds) index2expr [] result = None"
| "optdefs2mbpdef n def_vars (None # ds) index2expr (rv # rvs) result = None"
| "optdefs2mbpdef n def_vars (Some d # ds) index2expr (rv # rvs) result =
     (case index2expr rv of
        None \<Rightarrow> None
      | Some x \<Rightarrow>
          (case from_def n def_vars d (is_int x) index2expr of
             None \<Rightarrow> None
           | Some t \<Rightarrow> optdefs2mbpdef n def_vars ds index2expr rvs (result @ [(x, t)])))"

text \<open>
  Modelled from the spec: the substitution \<open>expr_safe_replace\<close>
  (ast/rewriter/expr_safe_replace is not among the sources). Section 4.6, step 10:
  the definitions are substituted into the formulas; an expression that is a key is
  replaced, any other is rebuilt over its substituted arguments.
\<close>

fun safe_replace :: "(expr \<times> expr) list \<Rightarrow> expr \<Rightarrow> expr" where
  "safe_replace sub e =
     (case map_of sub e of
        Some d \<Rightarrow> d
      | None \<Rightarrow>
          (case e of
             ENot a \<Rightarrow> ENot (safe_replace sub a)
           | EAnd as \<Rightarrow> EAnd (map (safe_replace sub) as)
           | EOr as \<Rightarrow> EOr (map (safe_replace sub) as)
           | EEq a b \<Rightarrow> EEq (safe_replace sub a) (safe_replace sub b)
           | EDistinct as \<Rightarrow> EDistinct (map (safe_replace sub) as)
           | EIte g a b \<Rightarrow> EIte (safe_replace sub g) (safe_replace sub a) (safe_replace sub b)
           | ELe a b \<Rightarrow> ELe (safe_replace sub a) (safe_replace sub b)
           | ELt a b \<Rightarrow> ELt (safe_replace sub a) (safe_replace sub b)
           | EGe a b \<Rightarrow> EGe (safe_replace sub a) (safe_replace sub b)
           | EGt a b \<Rightarrow> EGt (safe_replace sub a) (safe_replace sub b)
           | EAdd as \<Rightarrow> EAdd (map (safe_replace sub) as)
           | ESub a b \<Rightarrow> ESub (safe_replace sub a) (safe_replace sub b)
           | EUminus a \<Rightarrow> EUminus (safe_replace sub a)
           | EMul as \<Rightarrow> EMul (map (safe_replace sub) as)
           | EMod a b \<Rightarrow> EMod (safe_replace sub a) (safe_replace sub b)
           | EIdiv a b \<Rightarrow> EIdiv (safe_replace sub a) (safe_replace sub b)
           | EDiv a b \<Rightarrow> EDiv (safe_replace sub a) (safe_replace sub b)
           | EApp f srt as \<Rightarrow> EApp f srt (map (safe_replace sub) as)
           | _ \<Rightarrow> e))"

text \<open>
  \<open>apply_projection\<close>: the substitution is built from the last definition to the
  first; then each formula is replaced in place by its substituted form, until one
  evaluates to false.
\<close>

fun build_subst :: "(expr \<times> expr) list \<Rightarrow> (expr \<times> expr) list \<Rightarrow> (expr \<times> expr) list" where
  "build_subst [] sub = sub"
| "build_subst (d # ds) sub = build_subst ds (sub @ [(fst d, safe_replace sub (snd d))])"

fun apply_loop ::
  "env \<Rightarrow> bool \<Rightarrow> (expr \<times> expr) list \<Rightarrow> expr list \<Rightarrow> expr list \<Rightarrow> bool \<times> expr list" where
  "apply_loop env cm sub seen [] = (True, seen)"
| "apply_loop env cm sub seen (fml # rest) =
     (let tmp = safe_replace sub fml
      in if ev env cm tmp = EFalse then (False, seen @ fml # rest)
         else apply_loop env cm sub (seen @ [tmp]) rest)"

definition apply_projection ::
  "env \<Rightarrow> bool \<Rightarrow> (expr \<times> expr) list \<Rightarrow> expr list \<Rightarrow> bool \<times> expr list" where
  "apply_projection env cm defs fs =
     (if fs = [] \<or> defs = [] then (True, fs)
      else apply_loop env cm (build_subst (rev defs) []) [] fs)"

text \<open>
  \<open>project\<close>. The result is the exception thrown, or the returned flag with the
  variable vector, the formula vector and the definition vector as the call leaves
  them. \<open>Undefined\<close> is no exception of the source: it marks the runs on which the
  source reads a null or missing expression or recurses without end (see
  \<open>id2expr\<close>).
\<close>

datatype failure = Thrown error | Undefined

definition mark_tids :: "bool \<Rightarrow> expr set \<Rightarrow> expr list \<Rightarrow> (expr \<times> nat) list \<Rightarrow> expr set" where
  "mark_tids check_purified var_mark fs td =
     (\<Union>e\<in>{e \<in> fst ` set td. is_arith e \<and> \<not> is_pure e \<and> e \<notin> var_mark}. subterms e) \<union>
     (if check_purified
      then (\<Union>fml\<in>set fs. subterms fml) \<union>
           (\<Union>e\<in>{e \<in> fst ` set td. e \<notin> var_mark \<and> \<not> is_pure e}. subterms e)
      else {})"

definition index2expr_of :: "(expr \<times> nat) list \<Rightarrow> nat \<Rightarrow> expr option" where
  "index2expr_of td = map_of (map (\<lambda>(e, i). (i, e)) td)"

definition def_vars_of :: "row list \<Rightarrow> (nat \<times> row) list" where
  "def_vars_of rows =
     fold (\<lambda>r dv. if r_type r = t_mod then AList.update (r_id r) r dv
                   else if r_type r = t_div then AList.update (r_id r) r dv
                   else dv) rows []"

definition project ::
  "imp \<Rightarrow> model \<Rightarrow> expr list \<Rightarrow> expr list \<Rightarrow> (expr \<times> expr) list \<Rightarrow> bool \<Rightarrow>
   failure + (bool \<times> expr list \<times> expr list \<times> (expr \<times> expr) list)" where
  "project this mdl vars fs result compute_def0 =
     (if \<not> list_ex is_arith vars then Inr (True, vars, fs, result)
      else
        (let env = \<lparr>ev = model_evaluator this mdl, inc = limit_inc this\<rparr>;
             compute_def = (compute_def0 \<or> m_apply_projection this)
         in case project_loop env 0 0
                   \<lparr>mbo = mbo_empty, fmls = fs, tids = [], completion = True\<rparr> of
              Inl e \<Rightarrow> Inl (Thrown e)
            | Inr (j, s1) \<Rightarrow>
                (case register_vars env vars (s1\<lparr>fmls := take j (fmls s1)\<rparr>) of
                   Inl e \<Rightarrow> Inl (Thrown e)
                 | Inr None \<Rightarrow> Inr (False, vars, take j (fmls s1), result)
                 | Inr (Some s2) \<Rightarrow>
                     (let fmls_mark =
                            mark_tids (m_check_purified this) (set vars) (fmls s2) (tids s2);
                          index2expr = index2expr_of (tids s2);
                          real_vars =
                            concat (map (\<lambda>v. case map_of (tids s2) v of
                                               Some i \<Rightarrow> [i] | None \<Rightarrow> [])
                                      (filter (\<lambda>v. is_arith v \<and> v \<notin> fmls_mark) vars));
                          vars1 = filter (\<lambda>v. \<not> (is_arith v \<and> v \<notin> fmls_mark)) vars;
                          (defs, k) = mbo_project this (mbo s2) real_vars compute_def;
                          rows = mbo_get_live_rows this k;
                          def_vars = def_vars_of rows;
                          n = Suc (length def_vars)
                      in case rows2fmls n def_vars index2expr rows (fmls s2) of
                           None \<Rightarrow> Inl Undefined
                         | Some fs1 \<Rightarrow>
                             (case (if compute_def
                                    then optdefs2mbpdef n def_vars defs index2expr real_vars result
                                    else Some result) of
                                None \<Rightarrow> Inl Undefined
                              | Some result1 \<Rightarrow>
                                  (if m_apply_projection this then
                                     (let (ok, fs2) =
                                            apply_projection env (completion s2) result1 fs1
                                      in Inr (ok, vars1, fs2, result1))
                                   else Inr (True, vars1, fs1, result1)))))))"

text \<open>
  \<open>project1\<close>: the variable vector \<open>vars\<close> of the caller is not touched; the flag
  and the literals are returned.
\<close>

definition project1 ::
  "imp \<Rightarrow> model \<Rightarrow> expr \<Rightarrow> expr list \<Rightarrow> expr list \<Rightarrow> failure + (bool \<times> expr list \<times> expr list)" where
  "project1 this mdl v vars lits =
     (case project this mdl [v] lits [] False of
        Inl e \<Rightarrow> Inl e
      | Inr (ok, vs, lits1, defs) \<Rightarrow> Inr (ok \<and> vs = [], vars, lits1))"

section \<open>maximize\<close>

text \<open>
  The loop of \<open>maximize\<close> over the constraints is a range-for over the formula
  vector: it visits the formulas the vector holds when the loop starts, and the flag
  of each linearization is dropped.
\<close>

fun maximize_loop :: "env \<Rightarrow> expr list \<Rightarrow> lin_state \<Rightarrow> error + lin_state" where
  "maximize_loop env [] s = Inr s"
| "maximize_loop env (fml # rest) s =
     (case linearize env fml s of
        Inl e \<Rightarrow> Inl e
      | Inr (ok, s1) \<Rightarrow> maximize_loop env rest s1)"

definition update_model :: "mbo \<Rightarrow> (expr \<times> nat) list \<Rightarrow> model \<Rightarrow> model" where
  "update_model k td mdl =
     fold (\<lambda>(e, i) m. if is_uninterp_const e
                       then register_decl e (Numeral (var_value k i) False) m
                       else m) td mdl"

text \<open>The result: the optimum, the model as updated, \<open>ge\<close> and \<open>gt\<close>.\<close>

definition maximize ::
  "imp \<Rightarrow> expr list \<Rightarrow> model \<Rightarrow> expr \<Rightarrow> error + (inf_eps \<times> model \<times> expr \<times> expr)" where
  "maximize this fmls0 mdl t =
     (let env = \<lparr>ev = model_evaluator this mdl, inc = limit_inc this\<rparr>
      in case linearize_term env 1 t
                (0, [], \<lparr>mbo = mbo_empty, fmls = fmls0, tids = [], completion = False\<rparr>) of
           Inl e \<Rightarrow> Inl e
         | Inr (c, ts, s1) \<Rightarrow>
             (case extract_coefficients env ts s1 of
                Inl e \<Rightarrow> Inl e
              | Inr (coeffs, s2) \<Rightarrow>
                  (case maximize_loop env (fmls s2)
                          (s2\<lparr>mbo := set_objective coeffs c (mbo s2)\<rparr>) of
                     Inl e \<Rightarrow> Inl e
                   | Inr s3 \<Rightarrow>
                       (let (value, k) = mbo_maximize this (mbo s3);
                            mdl1 = update_model k (tids s3) mdl;
                            val = Numeral (rational_part value) False;
                            tval = model_evaluator this mdl1 (completion s3) t
                        in if \<not> is_finite value then Inr (value, mdl1, EGe t tval, EFalse)
                           else if infinitesimal value < 0
                           then Inr (value, mdl1, EGe t tval, EGe t val)
                           else Inr (value, mdl1, EGe t val, EGt t val)))))"

section \<open>A model evaluator\<close>

text \<open>
  Modelled from the spec: the model evaluator (model/model_evaluator is not among the
  sources; section 1 names it as an external collaborator, "partial evaluation with
  completion"). A constant takes its value from the model; without one, model
  completion gives it the default of its sort. The operators of arithmetic and the
  connectives are computed once their arguments are values; an application the
  evaluator cannot compute is returned over its evaluated arguments. Division and
  modulus are those of the kernel, and are left alone at divisor zero.
\<close>

fun numerals :: "expr list \<Rightarrow> rat list option" where
  "numerals [] = Some []"
| "numerals (e # es) =
     (case is_numeral e of
        None \<Rightarrow> None
      | Some r \<Rightarrow> (case numerals es of None \<Rightarrow> None | Some rs \<Rightarrow> Some (r # rs)))"

definition truth :: "bool \<Rightarrow> expr" where
  "truth b = (if b then ETrue else EFalse)"

definition compare :: "(rat \<Rightarrow> rat \<Rightarrow> bool) \<Rightarrow> (expr \<Rightarrow> expr \<Rightarrow> expr) \<Rightarrow> expr \<Rightarrow> expr \<Rightarrow> expr" where
  "compare rel mk va vb =
     (case is_numeral va of
        None \<Rightarrow> mk va vb
      | Some r1 \<Rightarrow> (case is_numeral vb of None \<Rightarrow> mk va vb | Some r2 \<Rightarrow> truth (rel r1 r2)))"

definition arith2 ::
  "(rat \<Rightarrow> rat \<Rightarrow> expr option) \<Rightarrow> (expr \<Rightarrow> expr \<Rightarrow> expr) \<Rightarrow> expr \<Rightarrow> expr \<Rightarrow> expr" where
  "arith2 f mk va vb =
     (case is_numeral va of
        None \<Rightarrow> mk va vb
      | Some r1 \<Rightarrow>
          (case is_numeral vb of
             None \<Rightarrow> mk va vb
           | Some r2 \<Rightarrow> (case f r1 r2 of Some v \<Rightarrow> v | None \<Rightarrow> mk va vb)))"

fun eval_model :: "model \<Rightarrow> bool \<Rightarrow> expr \<Rightarrow> expr" where
  "eval_model mdl cm (UConst n srt) =
     (case map_of mdl (n, srt) of
        Some v \<Rightarrow> v
      | None \<Rightarrow>
          (if cm then
             (case srt of
                BoolS \<Rightarrow> EFalse
              | IntS \<Rightarrow> Numeral 0 True
              | RealS \<Rightarrow> Numeral 0 False
              | OtherS \<Rightarrow> UConst n srt)
           else UConst n srt))"
| "eval_model mdl cm (Numeral r i) = Numeral r i"
| "eval_model mdl cm ETrue = ETrue"
| "eval_model mdl cm EFalse = EFalse"
| "eval_model mdl cm (ENot a) =
     (case eval_model mdl cm a of ETrue \<Rightarrow> EFalse | EFalse \<Rightarrow> ETrue | v \<Rightarrow> ENot v)"
| "eval_model mdl cm (EAnd as) =
     (let vs = map (eval_model mdl cm) as
      in if EFalse \<in> set vs then EFalse
         else if list_all (\<lambda>v. v = ETrue) vs then ETrue else EAnd vs)"
| "eval_model mdl cm (EOr as) =
     (let vs = map (eval_model mdl cm) as
      in if ETrue \<in> set vs then ETrue
         else if list_all (\<lambda>v. v = EFalse) vs then EFalse else EOr vs)"
| "eval_model mdl cm (EEq a b) =
     (let va = eval_model mdl cm a; vb = eval_model mdl cm b
      in if va = vb then ETrue
         else if (va = ETrue \<or> va = EFalse) \<and> (vb = ETrue \<or> vb = EFalse) then EFalse
         else compare (=) EEq va vb)"
| "eval_model mdl cm (EDistinct as) =
     (let vs = map (eval_model mdl cm) as
      in case numerals vs of Some rs \<Rightarrow> truth (distinct rs) | None \<Rightarrow> EDistinct vs)"
| "eval_model mdl cm (EIte g a b) =
     (case eval_model mdl cm g of
        ETrue \<Rightarrow> eval_model mdl cm a
      | EFalse \<Rightarrow> eval_model mdl cm b
      | v \<Rightarrow> EIte v (eval_model mdl cm a) (eval_model mdl cm b))"
| "eval_model mdl cm (ELe a b) = compare (\<le>) ELe (eval_model mdl cm a) (eval_model mdl cm b)"
| "eval_model mdl cm (ELt a b) = compare (<) ELt (eval_model mdl cm a) (eval_model mdl cm b)"
| "eval_model mdl cm (EGe a b) = compare (\<ge>) EGe (eval_model mdl cm a) (eval_model mdl cm b)"
| "eval_model mdl cm (EGt a b) = compare (>) EGt (eval_model mdl cm a) (eval_model mdl cm b)"
| "eval_model mdl cm (EAdd as) =
     (let vs = map (eval_model mdl cm) as
      in case numerals vs of
           Some rs \<Rightarrow> Numeral (sum_list rs) (list_all is_int vs)
         | None \<Rightarrow> EAdd vs)"
| "eval_model mdl cm (ESub a b) =
     (let va = eval_model mdl cm a; vb = eval_model mdl cm b
      in arith2 (\<lambda>r1 r2. Some (Numeral (r1 - r2) (is_int va \<and> is_int vb))) ESub va vb)"
| "eval_model mdl cm (EUminus a) =
     (let va = eval_model mdl cm a
      in case is_numeral va of Some r \<Rightarrow> Numeral (- r) (is_int va) | None \<Rightarrow> EUminus va)"
| "eval_model mdl cm (EMul as) =
     (let vs = map (eval_model mdl cm) as
      in case numerals vs of
           Some rs \<Rightarrow> Numeral (prod_list rs) (list_all is_int vs)
         | None \<Rightarrow> EMul vs)"
| "eval_model mdl cm (EMod a b) =
     arith2 (\<lambda>r1 r2. if r2 \<noteq> 0 then Some (Numeral (rat_mod r1 r2) True) else None) EMod
       (eval_model mdl cm a) (eval_model mdl cm b)"
| "eval_model mdl cm (EIdiv a b) =
     arith2 (\<lambda>r1 r2. if r2 \<noteq> 0 then Some (Numeral (rat_div r1 r2) True) else None) EIdiv
       (eval_model mdl cm a) (eval_model mdl cm b)"
| "eval_model mdl cm (EDiv a b) =
     arith2 (\<lambda>r1 r2. if r2 \<noteq> 0 then Some (Numeral (r1 / r2) False) else None) EDiv
       (eval_model mdl cm a) (eval_model mdl cm b)"
| "eval_model mdl cm (EApp f srt as) = EApp f srt (map (eval_model mdl cm) as)"

section \<open>theory\_bv\_params.cpp\<close>

text \<open>
  The ten fields are those \<open>theory_bv_params::display\<close> prints. The header that
  declares them is not among the sources: the solver mode is an enumeration, kept as a
  type parameter, the two counters are \<open>unsigned\<close>, the others are flags. The getters
  of the two generated parameter helpers (\<open>smt_params_helper\<close> and
  \<open>bv_rewriter_params\<close>) are parameters too: each reads one value off the parameter
  set \<open>_p\<close>.
\<close>

record 'mode theory_bv_params =
  m_bv_mode :: 'mode
  m_hi_div0 :: bool
  m_bv_reflect :: bool
  m_bv_lazy_le :: bool
  m_bv_cc :: bool
  m_bv_blast_max_size :: "32 word"
  m_bv_enable_int2bv2int :: bool
  m_bv_delay :: bool
  m_bv_size_reduce :: bool
  m_bv_solver :: "32 word"

record 'p bv_getters =
  hi_div0 :: "'p \<Rightarrow> bool"
  bv_reflect :: "'p \<Rightarrow> bool"
  bv_enable_int2bv :: "'p \<Rightarrow> bool"
  bv_delay :: "'p \<Rightarrow> bool"
  bv_size_reduce :: "'p \<Rightarrow> bool"
  bv_solver :: "'p \<Rightarrow> 32 word"

definition updt_params ::
  "'p bv_getters \<Rightarrow> 'p \<Rightarrow> 'mode theory_bv_params \<Rightarrow> 'mode theory_bv_params" where
  "updt_params g p this =
     this\<lparr>m_hi_div0 := hi_div0 g p,
          m_bv_reflect := bv_reflect g p,
          m_bv_enable_int2bv2int := bv_enable_int2bv g p,
          m_bv_delay := bv_delay g p,
          m_bv_size_reduce := bv_size_reduce g p,
          m_bv_solver := bv_solver g p\<rparr>"

section \<open>Properties of theory\_bv\_params\<close>

text \<open>
  C10. \<open>updt_params\<close> assigns the six fields \<open>m_hi_div0\<close>, \<open>m_bv_reflect\<close>,
  \<open>m_bv_enable_int2bv2int\<close>, \<open>m_bv_delay\<close>, \<open>m_bv_size_reduce\<close> and
  \<open>m_bv_solver\<close> from the parameter set, each from its getter, and for every parameter
  set it leaves \<open>m_bv_mode\<close>, \<open>m_bv_lazy_le\<close>, \<open>m_bv_cc\<close> and
  \<open>m_bv_blast_max_size\<close> as they were: the object after the call is the object before
  it with exactly those six fields replaced.
\<close>

theorem updt_params_frame:
  "m_bv_mode (updt_params g p this) = m_bv_mode this \<and>
   m_bv_lazy_le (updt_params g p this) = m_bv_lazy_le this \<and>
   m_bv_cc (updt_params g p this) = m_bv_cc this \<and>
   m_bv_blast_max_size (updt_params g p this) = m_bv_blast_max_size this \<and>
   m_hi_div0 (updt_params g p this) = hi_div0 g p \<and>
   m_bv_reflect (updt_params g p this) = bv_reflect g p \<and>
   m_bv_enable_int2bv2int (updt_params g p this) = bv_enable_int2bv g p \<and>
   m_bv_delay (updt_params g p this) = bv_delay g p \<and>
   m_bv_size_reduce (updt_params g p this) = bv_size_reduce g p \<and>
   m_bv_solver (updt_params g p this) = bv_solver g p \<and>
   updt_params g p this =
     \<lparr>m_bv_mode = m_bv_mode this, m_hi_div0 = hi_div0 g p, m_bv_reflect = bv_reflect g p,
      m_bv_lazy_le = m_bv_lazy_le this, m_bv_cc = m_bv_cc this,
      m_bv_blast_max_size = m_bv_blast_max_size this,
      m_bv_enable_int2bv2int = bv_enable_int2bv g p, m_bv_delay = bv_delay g p,
      m_bv_size_reduce = bv_size_reduce g p, m_bv_solver = bv_solver g p,
      \<dots> = theory_bv_params.more this\<rparr>"
  by (simp add: updt_params_def)

end
